theory Spec2Isabelle
  imports Main "HOL-Library.List_Lexorder" "HOL-Library.Char_ord"
begin

section \<open>galman: content keys, decision lists, import and review\<close>

text \<open>
  A shallow embedding of \<^verbatim>\<open>galman.py\<close>. Bytes and characters are both \<^typ>\<open>char\<close>;
  a path is the string the program passes to the operating system. The file system is a
  partial map from paths to nodes. Symbolic links, permissions and the current directory
  are not represented: a path names at most one node, and a node is either a regular file
  with its bytes or a directory.
\<close>

subsection \<open>Constants of the module\<close>

definition HASH_LENGTH :: nat where "HASH_LENGTH = 32"
definition SIZE_LENGTH :: nat where "SIZE_LENGTH = 8"

definition IGNORED_EXT :: "string set" where
  "IGNORED_EXT = {''.tags'', ''.swf'', ''.json''}"

definition BLACKLIST_FILE :: string where "BLACKLIST_FILE = ''.blacklist''"
definition WHITELIST_FILE :: string where "WHITELIST_FILE = ''.whitelist''"
definition AIRLOCK_DIR :: string where "AIRLOCK_DIR = ''.airlock''"
definition GALLERY_DIR :: string where "GALLERY_DIR = ''Gallery''"

subsection \<open>The file system and the library calls the program makes\<close>

type_synonym bytes = string
type_synonym path = string

datatype node = File bytes | Directory

type_synonym filesystem = "path \<Rightarrow> node option"

datatype os_error =
    FileNotFoundError
  | FileExistsError
  | IsADirectoryError
  | SameFileError
  | ShutilError
  | IndexError
  | ValueError
  | SystemExit int

definition slash :: char where "slash = CHR ''/''"
definition dot :: char where "dot = CHR ''.''"
definition newline :: char where "newline = CHR 0x0A"
definition carriage_return :: char where "carriage_return = CHR 0x0D"

text \<open>\<^verbatim>\<open>os.path.join(a, b)\<close> with two arguments (posixpath).\<close>

definition join :: "path \<Rightarrow> path \<Rightarrow> path" where
  "join a b =
     (if b \<noteq> [] \<and> hd b = slash then b
      else if a = [] \<or> last a = slash then a @ b
      else a @ [slash] @ b)"

text \<open>\<^verbatim>\<open>os.path.basename(p)\<close>: what follows the last slash.\<close>

definition basename :: "path \<Rightarrow> path" where
  "basename p = rev (takeWhile (\<lambda>c. c \<noteq> slash) (rev p))"

text \<open>
  \<^verbatim>\<open>os.path.dirname(p)\<close>: what precedes the last slash, that slash included, with
  trailing slashes stripped unless the head consists of slashes only.
\<close>

definition dirname :: "path \<Rightarrow> path" where
  "dirname p =
     (let head = rev (dropWhile (\<lambda>c. c \<noteq> slash) (rev p))
      in if head \<noteq> [] \<and> (\<exists>c \<in> set head. c \<noteq> slash)
         then rev (dropWhile (\<lambda>c. c = slash) (rev head))
         else head)"

text \<open>
  \<^verbatim>\<open>os.path.splitext(p)[1]\<close>: the extension starts at the last dot of the last
  component, provided a character other than a dot precedes it in that component.
\<close>

definition splitext_ext :: "path \<Rightarrow> string" where
  "splitext_ext p =
     (let base = basename p;
          suffix = rev (takeWhile (\<lambda>c. c \<noteq> dot) (rev base));
          stem = take (length base - length suffix - 1) base
      in if dot \<in> set base \<and> (\<exists>c \<in> set stem. c \<noteq> dot) then dot # suffix else [])"

definition isdir :: "filesystem \<Rightarrow> path \<Rightarrow> bool" where
  "isdir fs p = (fs p = Some Directory)"

definition isfile :: "filesystem \<Rightarrow> path \<Rightarrow> bool" where
  "isfile fs p = (case fs p of Some (File _) \<Rightarrow> True | _ \<Rightarrow> False)"

definition exists_path :: "filesystem \<Rightarrow> path \<Rightarrow> bool" where
  "exists_path fs p = (fs p \<noteq> None)"

text \<open>
  A new entry can be made at \<open>p\<close> when the directory that is to hold it exists; an empty
  \<^const>\<open>dirname\<close> stands for the current directory.
\<close>

definition parent_exists :: "filesystem \<Rightarrow> path \<Rightarrow> bool" where
  "parent_exists fs p = (dirname p = [] \<or> isdir fs (dirname p))"

text \<open>\<^verbatim>\<open>os.mkdir(p)\<close>.\<close>

definition mkdir :: "filesystem \<Rightarrow> path \<Rightarrow> os_error + filesystem" where
  "mkdir fs p =
     (if exists_path fs p then Inl FileExistsError
      else if \<not> parent_exists fs p then Inl FileNotFoundError
      else Inr (fs(p \<mapsto> Directory)))"

text \<open>\<^verbatim>\<open>open(p, 'a').close()\<close>: creates an empty file unless one is there.\<close>

definition open_append_close :: "filesystem \<Rightarrow> path \<Rightarrow> os_error + filesystem" where
  "open_append_close fs p =
     (case fs p of
        Some Directory \<Rightarrow> Inl IsADirectoryError
      | Some (File _) \<Rightarrow> Inr fs
      | None \<Rightarrow> if parent_exists fs p then Inr (fs(p \<mapsto> File [])) else Inl FileNotFoundError)"

text \<open>Opening \<open>p\<close> for reading and reading all of it.\<close>

definition read_bytes :: "filesystem \<Rightarrow> path \<Rightarrow> os_error + bytes" where
  "read_bytes fs p =
     (case fs p of
        Some (File content) \<Rightarrow> Inr content
      | Some Directory \<Rightarrow> Inl IsADirectoryError
      | None \<Rightarrow> Inl FileNotFoundError)"

text \<open>Opening \<open>p\<close> with mode \<^verbatim>\<open>'w'\<close>, writing \<open>content\<close> and closing.\<close>

definition write_bytes :: "filesystem \<Rightarrow> path \<Rightarrow> bytes \<Rightarrow> os_error + filesystem" where
  "write_bytes fs p content =
     (if isdir fs p then Inl IsADirectoryError
      else if \<not> exists_path fs p \<and> \<not> parent_exists fs p then Inl FileNotFoundError
      else Inr (fs(p \<mapsto> File content)))"

text \<open>\<^verbatim>\<open>os.remove(p)\<close>.\<close>

definition os_remove :: "filesystem \<Rightarrow> path \<Rightarrow> os_error + filesystem" where
  "os_remove fs p =
     (case fs p of
        Some (File _) \<Rightarrow> Inr (fs(p := None))
      | Some Directory \<Rightarrow> Inl IsADirectoryError
      | None \<Rightarrow> Inl FileNotFoundError)"

text \<open>
  \<^verbatim>\<open>shutil.copy(src, dst, follow_symlinks=True)\<close>: a directory as destination receives
  the file under the source's basename; the bytes of the source are written to the
  destination.
\<close>

definition shutil_copy :: "filesystem \<Rightarrow> path \<Rightarrow> path \<Rightarrow> os_error + filesystem" where
  "shutil_copy fs src dst =
     (let dst' = (if isdir fs dst then join dst (basename src) else dst)
      in if src = dst' \<and> exists_path fs src then Inl SameFileError
         else case read_bytes fs src of
                Inl e \<Rightarrow> Inl e
              | Inr content \<Rightarrow> write_bytes fs dst' content)"

text \<open>
  \<^verbatim>\<open>shutil.move(src, dst)\<close> for a source that is a regular file, which is how
  \<open>whitelist_handler\<close> reaches it (it has read the file just before). A directory as
  destination receives the file under the source's basename and must not hold that name
  yet; otherwise the file is renamed, replacing a regular file at the destination.
\<close>

definition shutil_move :: "filesystem \<Rightarrow> path \<Rightarrow> path \<Rightarrow> os_error + filesystem" where
  "shutil_move fs src dst =
     (let real_dst = (if isdir fs dst then join dst (basename src) else dst)
      in if isdir fs dst \<and> exists_path fs real_dst then Inl ShutilError
         else case fs src of
                None \<Rightarrow> Inl FileNotFoundError
              | Some Directory \<Rightarrow> Inl IsADirectoryError
              | Some (File content) \<Rightarrow>
                  if isdir fs real_dst then Inl IsADirectoryError
                  else if \<not> exists_path fs real_dst \<and> \<not> parent_exists fs real_dst
                       then Inl FileNotFoundError
                  else if src = real_dst then Inr fs
                  else Inr ((fs(src := None))(real_dst \<mapsto> File content)))"

subsection \<open>Content keys\<close>

definition get_file_extension :: "string \<Rightarrow> string" where
  "get_file_extension fname = splitext_ext fname"

definition hex_char :: "nat \<Rightarrow> char" where
  "hex_char d = ''0123456789abcdef'' ! d"

text \<open>The digits that the presentation type \<^verbatim>\<open>x\<close> produces for a non-negative integer.\<close>

function hex_digits :: "nat \<Rightarrow> string" where
  "hex_digits n =
     (if n < 16 then [hex_char n] else hex_digits (n div 16) @ [hex_char (n mod 16)])"
  by pat_completeness auto
termination
  by (relation "measure (\<lambda>n. n)") auto

declare hex_digits.simps [simp del]

text \<open>
  \<^verbatim>\<open>'{0:0' + str(length) + 'x}'\<close> formats with a minimum width: shorter output is
  padded with zeros on the left, longer output is left as it is.
\<close>

definition hex_encode :: "nat \<Rightarrow> nat \<Rightarrow> string" where
  "hex_encode data length' =
     (let digits = hex_digits data
      in replicate (length' - length digits) (CHR ''0'') @ digits)"

text \<open>
  The loop \<^verbatim>\<open>iter(lambda: infile.read(4096), b'')\<close>: the chunks read until the first
  empty one.
\<close>

function read_chunks :: "bytes \<Rightarrow> bytes list" where
  "read_chunks content =
     (if content = [] then [] else take 4096 content # read_chunks (drop 4096 content))"
  by pat_completeness auto
termination
  by (relation "measure length") auto

declare read_chunks.simps [simp del]

text \<open>
  The hash object is the sequence of bytes fed to it so far: \<^verbatim>\<open>update\<close> appends, and
  the digest is that of the concatenation. The digest function itself belongs to
  \<^verbatim>\<open>hashlib\<close> and is the parameter \<open>sha256\<close>, with the digest read as a number
  (\<^verbatim>\<open>int(hexdigest, 16)\<close>).
\<close>

definition hash_update_all :: "bytes \<Rightarrow> bytes list \<Rightarrow> bytes" where
  "hash_update_all fed chunks = foldl (\<lambda>acc chunk. acc @ chunk) fed chunks"

definition get_file_hash ::
  "(bytes \<Rightarrow> nat) \<Rightarrow> filesystem \<Rightarrow> path \<Rightarrow> nat \<Rightarrow> os_error + string" where
  "get_file_hash sha256 fs fname hash_length =
     (case read_bytes fs fname of
        Inl e \<Rightarrow> Inl e
      | Inr content \<Rightarrow>
          (let hash_sha = sha256 (hash_update_all [] (read_chunks content));
               hash_sha = hash_sha mod (2 ^ (4 * hash_length))
           in Inr (hex_encode hash_sha hash_length)))"

text \<open>
  \<^verbatim>\<open>os.path.getsize\<close> of a regular file is the number of its bytes. For a directory the
  system reports a number this model does not hold; \<open>get_file_key\<close> never asks for it,
  since \<open>get_file_hash\<close> has failed on the directory before.
\<close>

definition get_file_size :: "filesystem \<Rightarrow> path \<Rightarrow> nat \<Rightarrow> os_error + string" where
  "get_file_size fs fname size_length =
     (case fs fname of
        Some (File content) \<Rightarrow> Inr (hex_encode (length content) size_length)
      | Some Directory \<Rightarrow> Inl IsADirectoryError
      | None \<Rightarrow> Inl FileNotFoundError)"

definition get_file_key ::
  "(bytes \<Rightarrow> nat) \<Rightarrow> filesystem \<Rightarrow> path \<Rightarrow> nat \<Rightarrow> nat \<Rightarrow> os_error + string" where
  "get_file_key sha256 fs fname hash_length size_length =
     (case get_file_hash sha256 fs fname hash_length of
        Inl e \<Rightarrow> Inl e
      | Inr fhash \<Rightarrow>
          (case get_file_size fs fname size_length of
             Inl e \<Rightarrow> Inl e
           | Inr fsize \<Rightarrow> Inr (fhash @ fsize)))"

subsection \<open>Decision lists\<close>

text \<open>
  A file opened with mode \<^verbatim>\<open>'r'\<close> is read with universal newlines: a carriage return,
  alone or followed by a line feed, arrives as one line feed. Decoding is the identity
  (the keys the program writes are ASCII).
\<close>

fun universal_newlines :: "string \<Rightarrow> string" where
  "universal_newlines [] = []"
| "universal_newlines [c] = (if c = carriage_return then [newline] else [c])"
| "universal_newlines (c # d # cs) =
     (if c = carriage_return
      then (if d = newline then newline # universal_newlines cs
            else newline # universal_newlines (d # cs))
      else c # universal_newlines (d # cs))"

text \<open>\<^verbatim>\<open>s.split(sep)\<close> for a separator of one character.\<close>

fun split_on :: "char \<Rightarrow> string \<Rightarrow> string list" where
  "split_on sep [] = [[]]"
| "split_on sep (c # cs) =
     (if c = sep then [] # split_on sep cs
      else (case split_on sep cs of
              [] \<Rightarrow> [[c]]
            | w # ws \<Rightarrow> (c # w) # ws))"

text \<open>
  A Python set is the list of its elements in iteration order, without repetition. The
  order in which a set iterates is not specified by the language; the statements below
  are about membership only.
\<close>

type_synonym key_set = "string list"

definition py_set :: "string list \<Rightarrow> key_set" where
  "py_set xs = remdups xs"

definition py_set_update :: "key_set \<Rightarrow> string list \<Rightarrow> key_set" where
  "py_set_update s xs = foldl (\<lambda>acc x. if x \<in> set acc then acc else acc @ [x]) s xs"

text \<open>
  \<open>read_file_keys\<close> opens the list in text mode. The text that is read is modelled by the
  bytes of the file with the line ends translated. This is what decoding gives for ASCII
  content under UTF-8 and under every other encoding that extends ASCII, and for content
  that \<open>write_file_keys\<close> has written under the same encoding. On other bytes the result of
  decoding depends on the locale, and \<open>read\<close> may raise \<open>UnicodeDecodeError\<close>; the model
  has no such outcome, so a statement about a list of arbitrary content is made for ASCII
  content only (\<open>ascii_text\<close> below).
\<close>

definition read_file_keys :: "filesystem \<Rightarrow> path \<Rightarrow> os_error + key_set" where
  "read_file_keys fs fname =
     (case read_bytes fs fname of
        Inl e \<Rightarrow> Inl e
      | Inr content \<Rightarrow>
          (let fkeys = split_on newline (universal_newlines content)
           in Inr (py_set fkeys)))"

text \<open>What the loop of \<open>write_file_keys\<close> has written once it has run through the set.\<close>

definition key_lines :: "key_set \<Rightarrow> string" where
  "key_lines fkeys = foldl (\<lambda>written fkey. written @ fkey @ [newline]) [] fkeys"

definition write_file_keys :: "filesystem \<Rightarrow> path \<Rightarrow> key_set \<Rightarrow> os_error + filesystem" where
  "write_file_keys fs fname fkeys = write_bytes fs fname (key_lines fkeys)"

subsection \<open>The collection\<close>

record world =
  files :: filesystem
  stdout :: "string list"

definition print :: "world \<Rightarrow> string \<Rightarrow> world" where
  "print w line = w\<lparr>stdout := stdout w @ [line]\<rparr>"

record collection =
  directory :: path
  blacklist :: key_set
  whitelist :: key_set

definition ensure_dir :: "filesystem \<Rightarrow> path \<Rightarrow> os_error + filesystem" where
  "ensure_dir fs p = (if \<not> isdir fs p then mkdir fs p else Inr fs)"

definition ensure_file :: "filesystem \<Rightarrow> path \<Rightarrow> os_error + filesystem" where
  "ensure_file fs p = (if \<not> isfile fs p then open_append_close fs p else Inr fs)"

text \<open>
  \<open>Collection.__init__\<close>. An exception leaves the file system as the steps before it
  have made it, so the world is returned beside the outcome.
\<close>

definition Collection_init :: "world \<Rightarrow> path \<Rightarrow> (os_error + collection) \<times> world" where
  "Collection_init w col =
     (let blacklist_path = join col BLACKLIST_FILE;
          whitelist_path = join col WHITELIST_FILE;
          airlock = join col AIRLOCK_DIR;
          gallery = join col GALLERY_DIR
      in case ensure_dir (files w) col of
           Inl e \<Rightarrow> (Inl e, w)
         | Inr fs1 \<Rightarrow>
        (case ensure_file fs1 blacklist_path of
           Inl e \<Rightarrow> (Inl e, w\<lparr>files := fs1\<rparr>)
         | Inr fs2 \<Rightarrow>
        (case ensure_file fs2 whitelist_path of
           Inl e \<Rightarrow> (Inl e, w\<lparr>files := fs2\<rparr>)
         | Inr fs3 \<Rightarrow>
        (case ensure_dir fs3 airlock of
           Inl e \<Rightarrow> (Inl e, w\<lparr>files := fs3\<rparr>)
         | Inr fs4 \<Rightarrow>
        (case ensure_dir fs4 gallery of
           Inl e \<Rightarrow> (Inl e, w\<lparr>files := fs4\<rparr>)
         | Inr fs5 \<Rightarrow>
        (case read_file_keys fs5 blacklist_path of
           Inl e \<Rightarrow> (Inl e, w\<lparr>files := fs5\<rparr>)
         | Inr bl \<Rightarrow>
        (case read_file_keys fs5 whitelist_path of
           Inl e \<Rightarrow> (Inl e, w\<lparr>files := fs5\<rparr>)
         | Inr wl \<Rightarrow>
             (Inr \<lparr>directory = col, blacklist = bl, whitelist = wl\<rparr>,
              w\<lparr>files := fs5\<rparr>))))))))"

text \<open>\<open>Collection.__exit__\<close>: the outcome is the exception a write has raised, if any.\<close>

definition Collection_exit :: "collection \<Rightarrow> world \<Rightarrow> os_error option \<times> world" where
  "Collection_exit col w =
     (let blacklist_file = join (directory col) BLACKLIST_FILE;
          whitelist_file = join (directory col) WHITELIST_FILE
      in case write_file_keys (files w) blacklist_file (blacklist col) of
           Inl e \<Rightarrow> (Some e, w)
         | Inr fs1 \<Rightarrow>
        (case write_file_keys fs1 whitelist_file (whitelist col) of
           Inl e \<Rightarrow> (Some e, w\<lparr>files := fs1\<rparr>)
         | Inr fs2 \<Rightarrow> (None, w\<lparr>files := fs2\<rparr>)))"

definition is_blacklisted :: "collection \<Rightarrow> string \<Rightarrow> bool" where
  "is_blacklisted col fkey = (fkey \<in> set (blacklist col))"

definition is_whitelisted :: "collection \<Rightarrow> string \<Rightarrow> bool" where
  "is_whitelisted col fkey = (fkey \<in> set (whitelist col))"

definition blacklist_file :: "collection \<Rightarrow> string \<Rightarrow> collection" where
  "blacklist_file col fkey = col\<lparr>blacklist := py_set_update (blacklist col) [fkey]\<rparr>"

definition whitelist_file :: "collection \<Rightarrow> string \<Rightarrow> collection" where
  "whitelist_file col fkey = col\<lparr>whitelist := py_set_update (whitelist col) [fkey]\<rparr>"

definition get_airlock :: "collection \<Rightarrow> path" where
  "get_airlock col = join (directory col) AIRLOCK_DIR"

definition get_gallery :: "collection \<Rightarrow> path" where
  "get_gallery col = join (directory col) GALLERY_DIR"

subsection \<open>Import\<close>

text \<open>
  One pass of the inner loop of \<open>import_files\<close> for the file \<open>fil\<close> of directory
  \<open>root\<close>. The key is computed before the extension is looked at, as in the source.
\<close>

definition import_files_body ::
  "(bytes \<Rightarrow> nat) \<Rightarrow> collection \<Rightarrow> world \<Rightarrow> path \<Rightarrow> string \<Rightarrow> os_error option \<times> world" where
  "import_files_body sha256 col w root fil =
     (let fname = join root fil;
          ext = get_file_extension fil
      in case get_file_key sha256 (files w) fname HASH_LENGTH SIZE_LENGTH of
           Inl e \<Rightarrow> (Some e, w)
         | Inr fkey \<Rightarrow>
             if ext \<in> IGNORED_EXT then (None, print w (''- Ignored: '' @ fname))
             else if \<not> is_blacklisted col fkey \<and> \<not> is_whitelisted col fkey then
               (let target = fkey @ ext;
                    target = join (get_airlock col) target
                in if \<not> exists_path (files w) target then
                     (case shutil_copy (files w) fname target of
                        Inl e \<Rightarrow> (Some e, w)
                      | Inr fs' \<Rightarrow>
                          (None, print (w\<lparr>files := fs'\<rparr>)
                                   (''+ Copied:  '' @ fname @ '' -> '' @ target)))
                   else (None, w))
             else (None, print w (''- Ignored: '' @ fname)))"

fun import_files_dir ::
  "(bytes \<Rightarrow> nat) \<Rightarrow> collection \<Rightarrow> world \<Rightarrow> path \<Rightarrow> string list \<Rightarrow> os_error option \<times> world" where
  "import_files_dir sha256 col w root [] = (None, w)"
| "import_files_dir sha256 col w root (fil # rest) =
     (case import_files_body sha256 col w root fil of
        (Some e, w') \<Rightarrow> (Some e, w')
      | (None, w') \<Rightarrow> import_files_dir sha256 col w' root rest)"

text \<open>
  \<open>import_files\<close>. The argument \<open>walk\<close> is what \<^verbatim>\<open>os.walk(src, topdown=False)\<close>
  yields: for each directory its path, the names of its subdirectories and the names of
  its other entries.
\<close>

fun import_files ::
  "(bytes \<Rightarrow> nat) \<Rightarrow> collection \<Rightarrow> world \<Rightarrow> (path \<times> string list \<times> string list) list
     \<Rightarrow> os_error option \<times> world" where
  "import_files sha256 col w [] = (None, w)"
| "import_files sha256 col w ((root, dirs, fils) # later) =
     (case import_files_dir sha256 col w root (sort fils) of
        (Some e, w') \<Rightarrow> (Some e, w')
      | (None, w') \<Rightarrow> import_files sha256 col w' later)"

subsection \<open>Review\<close>

text \<open>
  Of the player, the handlers use the playlist, the position in it and
  \<^verbatim>\<open>playlist_remove\<close>, which drops the current entry; the position then names the
  entry that followed, or none (\<open>-1\<close>) when the last entry was dropped.
\<close>

record player =
  playlist :: "path list"
  playlist_pos :: int
  running :: bool

text \<open>
  Indexing a list with an integer: an index below zero counts from the end, and an index
  outside the list raises.
\<close>

definition py_index :: "'a list \<Rightarrow> int \<Rightarrow> os_error + 'a" where
  "py_index xs i =
     (if 0 \<le> i \<and> i < int (length xs) then Inr (xs ! nat i)
      else if i < 0 \<and> - int (length xs) \<le> i then Inr (xs ! nat (int (length xs) + i))
      else Inl IndexError)"

definition playlist_remove :: "player \<Rightarrow> player" where
  "playlist_remove pl =
     (let i = playlist_pos pl;
          n = int (length (playlist pl))
      in if 0 \<le> i \<and> i < n
         then pl\<lparr>playlist := take (nat i) (playlist pl) @ drop (Suc (nat i)) (playlist pl),
                 playlist_pos := (if i + 1 < n then i else - 1)\<rparr>
         else pl)"

text \<open>
  The handlers run on a key event whose state string starts with \<^verbatim>\<open>u\<close>. They change
  the collection, the player and the world in this order, so an exception leaves the
  changes made before it.
\<close>

definition blacklist_handler ::
  "(bytes \<Rightarrow> nat) \<Rightarrow> collection \<Rightarrow> player \<Rightarrow> world \<Rightarrow> string
     \<Rightarrow> os_error option \<times> collection \<times> player \<times> world" where
  "blacklist_handler sha256 col pl w state =
     (case state of
        [] \<Rightarrow> (Some IndexError, col, pl, w)
      | s0 # _ \<Rightarrow>
          if s0 = CHR ''u'' then
            (case py_index (playlist pl) (playlist_pos pl) of
               Inl e \<Rightarrow> (Some e, col, pl, w)
             | Inr fname \<Rightarrow>
            (case get_file_key sha256 (files w) fname HASH_LENGTH SIZE_LENGTH of
               Inl e \<Rightarrow> (Some e, col, pl, w)
             | Inr fkey \<Rightarrow>
                 (let col' = blacklist_file col fkey;
                      pl' = playlist_remove pl
                  in case os_remove (files w) fname of
                       Inl e \<Rightarrow> (Some e, col', pl', w)
                     | Inr fs' \<Rightarrow>
                         (None, col', pl',
                          print (w\<lparr>files := fs'\<rparr>) (''Blacklisted: '' @ fname)))))
          else (None, col, pl, w))"

definition whitelist_handler ::
  "(bytes \<Rightarrow> nat) \<Rightarrow> collection \<Rightarrow> player \<Rightarrow> world \<Rightarrow> string
     \<Rightarrow> os_error option \<times> collection \<times> player \<times> world" where
  "whitelist_handler sha256 col pl w state =
     (case state of
        [] \<Rightarrow> (Some IndexError, col, pl, w)
      | s0 # _ \<Rightarrow>
          if s0 = CHR ''u'' then
            (case py_index (playlist pl) (playlist_pos pl) of
               Inl e \<Rightarrow> (Some e, col, pl, w)
             | Inr fname \<Rightarrow>
            (case get_file_key sha256 (files w) fname HASH_LENGTH SIZE_LENGTH of
               Inl e \<Rightarrow> (Some e, col, pl, w)
             | Inr fkey \<Rightarrow>
                 (let col' = whitelist_file col fkey;
                      pl' = playlist_remove pl;
                      basename' = basename fname
                  in case shutil_move (files w) fname (join (get_gallery col) basename') of
                       Inl e \<Rightarrow> (Some e, col', pl', w)
                     | Inr fs' \<Rightarrow>
                         (None, col', pl',
                          print (w\<lparr>files := fs'\<rparr>) (''Whitelisted: '' @ fname)))))
          else (None, col, pl, w))"

definition quit_handler ::
  "path list \<Rightarrow> player \<Rightarrow> world \<Rightarrow> string \<Rightarrow> os_error option \<times> path list \<times> player \<times> world" where
  "quit_handler queue pl w state =
     (case state of
        [] \<Rightarrow> (Some IndexError, queue, pl, w)
      | s0 # _ \<Rightarrow>
          if s0 = CHR ''u''
          then (None, [], pl\<lparr>running := False\<rparr>, print w ''Quitting manually.'')
          else (None, queue, pl, w))"

subsection \<open>The program\<close>

text \<open>
  \<^verbatim>\<open>with Collection(d) as COL: body\<close>. The constructor runs first, and an exception of
  it ends the statement. Otherwise the body runs on the collection, which it may change,
  and ends normally or with an exception; in both cases \<open>__exit__\<close> runs on the collection
  as the body left it. \<open>__exit__\<close> returns nothing, so an exception of the body goes on
  after it, unless \<open>__exit__\<close> raises one of its own.
\<close>

definition with_Collection ::
  "path \<Rightarrow> (collection \<Rightarrow> world \<Rightarrow> os_error option \<times> collection \<times> world) \<Rightarrow> world
     \<Rightarrow> os_error option \<times> world" where
  "with_Collection col_dir body w =
     (case Collection_init w col_dir of
        (Inl e, w1) \<Rightarrow> (Some e, w1)
      | (Inr col, w1) \<Rightarrow>
          (case body col w1 of
             (raised, col', w2) \<Rightarrow>
               (case Collection_exit col' w2 of
                  (Some e, w3) \<Rightarrow> (Some e, w3)
                | (None, w3) \<Rightarrow> (raised, w3))))"

record args =
  arg_collection :: path
  arg_source :: "path option"
  arg_view :: "string option"

text \<open>An option of the command line counts as given when it is present and not empty.\<close>

definition given :: "string option \<Rightarrow> bool" where
  "given a = (case a of None \<Rightarrow> False | Some v \<Rightarrow> v \<noteq> [])"

text \<open>
  The main program. \<open>sort_airlock\<close> and \<open>view_collection\<close> drive the player and are
  the parameters \<open>sort_airlock\<close> and \<open>view_collection\<close>: functions from the collection
  and the world to an outcome, the collection and the world they leave. \<open>to_int\<close> is
  \<^verbatim>\<open>int\<close> on a string and \<open>walk\<close> what \<^verbatim>\<open>os.walk\<close> yields for the source.
\<close>

definition main ::
  "(bytes \<Rightarrow> nat) \<Rightarrow> (path \<times> string list \<times> string list) list
     \<Rightarrow> (collection \<Rightarrow> world \<Rightarrow> os_error option \<times> collection \<times> world)
     \<Rightarrow> (collection \<Rightarrow> int \<Rightarrow> world \<Rightarrow> os_error option \<times> collection \<times> world)
     \<Rightarrow> (string \<Rightarrow> os_error + int)
     \<Rightarrow> args \<Rightarrow> world \<Rightarrow> os_error option \<times> world" where
  "main sha256 walk sort_airlock view_collection to_int ARGS w =
     (if given (arg_source ARGS) then
        (let source = the (arg_source ARGS)
         in if \<not> isdir (files w) source
            then (Some (SystemExit (- 1)),
                  print w (''Soure directory '' @ source @ '' does not exist.''))
            else with_Collection (arg_collection ARGS)
                   (\<lambda>COL w'. case import_files sha256 COL w' walk of (raised, w'') \<Rightarrow> (raised, COL, w''))
                   w)
      else if given (arg_view ARGS) then
        with_Collection (arg_collection ARGS)
          (\<lambda>COL w'. case to_int (the (arg_view ARGS)) of
                       Inl e \<Rightarrow> (Some e, COL, w')
                     | Inr wait \<Rightarrow> view_collection COL wait w')
          w
      else with_Collection (arg_collection ARGS) sort_airlock w)"

text \<open>A stand-in for the digest, used where a statement is evaluated on concrete files.\<close>

definition byte_sum :: "bytes \<Rightarrow> nat" where
  "byte_sum content = sum_list (map of_char content)"

subsection \<open>Notions used in the statements\<close>




text \<open>Keys without a line break, as every key read from a decision list is.\<close>

definition clean_keys :: "key_set \<Rightarrow> bool" where
  "clean_keys ks = (\<forall>k \<in> set ks. newline \<notin> set k \<and> carriage_return \<notin> set k)"

text \<open>
  The layout that \<open>Collection.__init__\<close> leaves: the directory, the two decision lists, the
  airlock and the gallery are there.
\<close>

definition opened :: "collection \<Rightarrow> world \<Rightarrow> bool" where
  "opened col w =
     (isdir (files w) (directory col)
      \<and> isfile (files w) (join (directory col) BLACKLIST_FILE)
      \<and> isfile (files w) (join (directory col) WHITELIST_FILE)
      \<and> isdir (files w) (get_airlock col)
      \<and> isdir (files w) (get_gallery col))"

text \<open>Opening \<open>p\<close> with mode \<^verbatim>\<open>'w'\<close> succeeds.\<close>

definition writable :: "filesystem \<Rightarrow> path \<Rightarrow> bool" where
  "writable fs p = (\<not> isdir fs p \<and> (exists_path fs p \<or> parent_exists fs p))"

text \<open>The test of \<open>import_files\<close> on a key, negated: the key is in one of the two sets.\<close>

definition known :: "collection \<Rightarrow> string \<Rightarrow> bool" where
  "known col fkey = (is_blacklisted col fkey \<or> is_whitelisted col fkey)"

text \<open>The \<open>target\<close> of \<open>import_files\<close> for a file with key \<open>fkey\<close> and name \<open>fil\<close>.\<close>

definition staging_path :: "collection \<Rightarrow> string \<Rightarrow> string \<Rightarrow> path" where
  "staging_path col fkey fil = join (get_airlock col) (fkey @ get_file_extension fil)"

text \<open>
  A file that a run of \<open>import_files\<close> has nothing to copy for: it can be read, and its
  extension is ignored, or its key is known, or its target is there.
\<close>

definition settled :: "(bytes \<Rightarrow> nat) \<Rightarrow> collection \<Rightarrow> filesystem \<Rightarrow> path \<Rightarrow> string \<Rightarrow> bool" where
  "settled sha256 col fs root fil =
     (case get_file_key sha256 fs (join root fil) HASH_LENGTH SIZE_LENGTH of
        Inl e \<Rightarrow> False
      | Inr fkey \<Rightarrow>
          get_file_extension fil \<in> IGNORED_EXT \<or> known col fkey
          \<or> exists_path fs (staging_path col fkey fil))"

text \<open>
  The lines a run prints that copies nothing: one for each file with an ignored extension
  or a known key, none for a file whose target is there.
\<close>

definition ignored_report ::
  "(bytes \<Rightarrow> nat) \<Rightarrow> collection \<Rightarrow> filesystem \<Rightarrow> path \<Rightarrow> string \<Rightarrow> string list" where
  "ignored_report sha256 col fs root fil =
     (case get_file_key sha256 fs (join root fil) HASH_LENGTH SIZE_LENGTH of
        Inl e \<Rightarrow> []
      | Inr fkey \<Rightarrow>
          if get_file_extension fil \<in> IGNORED_EXT \<or> known col fkey
          then [''- Ignored: '' @ join root fil] else [])"

definition ignored_reports ::
  "(bytes \<Rightarrow> nat) \<Rightarrow> collection \<Rightarrow> filesystem \<Rightarrow> (path \<times> string list \<times> string list) list
     \<Rightarrow> string list" where
  "ignored_reports sha256 col fs walk =
     concat (map (\<lambda>(root, dirs, fils).
                    concat (map (ignored_report sha256 col fs root) (sort fils))) walk)"

text \<open>The files a walk lists, each with its directory.\<close>

definition listed :: "(path \<times> string list \<times> string list) list \<Rightarrow> (path \<times> string) set" where
  "listed walk = {(root, fil). \<exists>dirs fils. (root, dirs, fils) \<in> set walk \<and> fil \<in> set fils}"

text \<open>
  What import may do to the files between two worlds: every path that was there keeps its
  node, and a path that was not there holds the copy of a listed file, under the target
  that \<open>import_files\<close> computes for it.
\<close>

definition stages_only ::
  "(bytes \<Rightarrow> nat) \<Rightarrow> collection \<Rightarrow> (path \<times> string) set \<Rightarrow> world \<Rightarrow> world \<Rightarrow> bool" where
  "stages_only sha256 col L w w' =
     ((\<forall>p. files w p \<noteq> None \<longrightarrow> files w' p = files w p)
      \<and> (\<forall>p. files w p = None \<and> files w' p \<noteq> None \<longrightarrow>
            (\<exists>root fil fkey content.
               (root, fil) \<in> L
               \<and> get_file_extension fil \<notin> IGNORED_EXT \<and> \<not> known col fkey
               \<and> get_file_key sha256 (files w') (join root fil) HASH_LENGTH SIZE_LENGTH = Inr fkey
               \<and> p = staging_path col fkey fil
               \<and> files w' p = Some (File content)
               \<and> files w' (join root fil) = Some (File content))))"

subsection \<open>A small collection and source, for evaluation\<close>


definition demo_collection :: collection where
  "demo_collection = \<lparr>directory = ''col'', blacklist = [[]], whitelist = [[]]\<rparr>"

definition demo_files :: filesystem where
  "demo_files =
     Map.empty(''col'' \<mapsto> Directory,
               ''col/.blacklist'' \<mapsto> File [],
               ''col/.whitelist'' \<mapsto> File [],
               ''col/.airlock'' \<mapsto> Directory,
               ''col/Gallery'' \<mapsto> Directory,
               ''src'' \<mapsto> Directory,
               ''src/cat.png'' \<mapsto> File ''X'')"

definition demo_world :: world where
  "demo_world = \<lparr>files = demo_files, stdout = []\<rparr>"

definition demo_walk :: "(path \<times> string list \<times> string list) list" where
  "demo_walk = [(''src'', [], [''cat.png''])]"

text \<open>The key of the picture under \<^const>\<open>byte_sum\<close>, and the picture as staged.\<close>

definition demo_key :: string where
  "demo_key = ''0000000000000000000000000000005800000001''"

definition demo_name :: string where
  "demo_name = ''0000000000000000000000000000005800000001.png''"

definition demo_staged :: path where
  "demo_staged = ''col/.airlock/0000000000000000000000000000005800000001.png''"

definition demo_staged_world :: world where
  "demo_staged_world =
     \<lparr>files = demo_files(demo_staged \<mapsto> File ''X''),
      stdout = [''+ Copied:  src/cat.png -> col/.airlock/0000000000000000000000000000005800000001.png'']\<rparr>"

definition demo_player :: player where
  "demo_player = \<lparr>playlist = [demo_staged], playlist_pos = 0, running = True\<rparr>"

section \<open>Properties\<close>

subsection \<open>Content keys\<close>

lemma hash_update_all_append: "hash_update_all fed chunks = fed @ concat chunks"
  unfolding hash_update_all_def by (induction chunks arbitrary: fed) auto

lemma concat_read_chunks: "concat (read_chunks content) = content"
proof (induction content rule: read_chunks.induct)
  case (1 content)
  show ?case
  proof (cases "content = []")
    case True
    then show ?thesis by (simp add: read_chunks.simps)
  next
    case False
    have "concat (read_chunks content) = take 4096 content @ concat (read_chunks (drop 4096 content))"
      using False by (subst read_chunks.simps) simp
    also have "\<dots> = take 4096 content @ drop 4096 content"
      using "1" False by simp
    finally show ?thesis by simp
  qed
qed

lemma hex_char_in: "d < 16 \<Longrightarrow> hex_char d \<in> set ''0123456789abcdef''"
  unfolding hex_char_def by (rule nth_mem) simp

lemma hex_digits_chars: "set (hex_digits n) \<subseteq> set ''0123456789abcdef''"
proof (induction n rule: hex_digits.induct)
  case (1 n)
  show ?case
  proof (cases "n < 16")
    case True
    then show ?thesis using hex_char_in [of n] by (subst hex_digits.simps) simp
  next
    case False
    have "n mod 16 < 16" by simp
    then have "hex_char (n mod 16) \<in> set ''0123456789abcdef''" by (rule hex_char_in)
    then show ?thesis using "1" False by (subst hex_digits.simps) simp
  qed
qed

lemma hex_digits_length_le: "0 < L \<Longrightarrow> n < 16 ^ L \<Longrightarrow> length (hex_digits n) \<le> L"
proof (induction n arbitrary: L rule: hex_digits.induct)
  case (1 n)
  show ?case
  proof (cases "n < 16")
    case True
    then show ?thesis using "1.prems" by (subst hex_digits.simps) simp
  next
    case False
    then obtain K where L: "L = Suc K" using "1.prems" by (cases L) auto
    have "0 < K" using False "1.prems" L by (cases K) auto
    moreover have "n div 16 < 16 ^ K" using "1.prems" L
      by (simp add: less_mult_imp_div_less mult.commute)
    ultimately have "length (hex_digits (n div 16)) \<le> K" using "1.IH" False by blast
    then show ?thesis using False L by (subst hex_digits.simps) simp
  qed
qed

lemma hex_digits_length_gt: "16 ^ L \<le> n \<Longrightarrow> L < length (hex_digits n)"
proof (induction n arbitrary: L rule: hex_digits.induct)
  case (1 n)
  show ?case
  proof (cases "n < 16")
    case True
    have "L = 0"
    proof (cases L)
      case (Suc K)
      have a: "(16::nat) \<le> 16 * 16 ^ K" by simp
      have b: "(16::nat) * 16 ^ K \<le> n" using "1.prems" Suc by simp
      show ?thesis using a b True by linarith
    qed simp
    then show ?thesis by (subst hex_digits.simps) simp
  next
    case False
    show ?thesis
    proof (cases L)
      case 0
      then show ?thesis by (subst hex_digits.simps) simp
    next
      case (Suc K)
      then have "16 ^ K \<le> n div 16" using "1.prems"
        by (simp add: less_eq_div_iff_mult_less_eq mult.commute)
      then have "K < length (hex_digits (n div 16))" using "1.IH" False by blast
      then show ?thesis using False Suc by (subst hex_digits.simps) simp
    qed
  qed
qed

lemma hex_digits_nonempty: "hex_digits n \<noteq> []"
  by (subst hex_digits.simps) simp

lemma length_hex_encode: "length (hex_encode n L) = max L (length (hex_digits n))"
  unfolding hex_encode_def by (simp add: Let_def)

lemma hex_encode_chars: "set (hex_encode n L) \<subseteq> set ''0123456789abcdef''"
  using hex_digits_chars [of n] unfolding hex_encode_def by (auto simp: Let_def)


lemma get_file_hash_File:
  "fs p = Some (File content) \<Longrightarrow>
   get_file_hash sha256 fs p hl = Inr (hex_encode (sha256 content mod 2 ^ (4 * hl)) hl)"
  by (simp add: get_file_hash_def read_bytes_def hash_update_all_append concat_read_chunks)

lemma get_file_key_File:
  "fs p = Some (File content) \<Longrightarrow>
   get_file_key sha256 fs p hl sl =
     Inr (hex_encode (sha256 content mod 2 ^ (4 * hl)) hl @ hex_encode (length content) sl)"
  by (simp add: get_file_key_def get_file_hash_File get_file_size_def)

lemma get_file_key_Inr_iff:
  "(\<exists>k. get_file_key sha256 fs p hl sl = Inr k) \<longleftrightarrow> (\<exists>content. fs p = Some (File content))"
  by (auto simp: get_file_key_def get_file_hash_def get_file_size_def read_bytes_def Let_def
           split: option.splits node.splits sum.splits)

lemma length_hash_field: "0 < hl \<Longrightarrow> length (hex_encode (h mod 2 ^ (4 * hl)) hl) = hl"
proof -
  assume hl: "0 < hl"
  have "(2::nat) ^ (4 * hl) = 16 ^ hl" by (simp add: power_mult)
  then have "h mod 2 ^ (4 * hl) < 16 ^ hl" by simp
  then have "length (hex_digits (h mod 2 ^ (4 * hl))) \<le> hl" using hl by (rule hex_digits_length_le [rotated])
  then show ?thesis by (simp add: length_hex_encode)
qed

lemma length_size_field: "0 < sl \<Longrightarrow> n < 16 ^ sl \<Longrightarrow> length (hex_encode n sl) = sl"
  using hex_digits_length_le [of sl n] by (simp add: length_hex_encode)

lemma length_size_field_overflow: "16 ^ sl \<le> n \<Longrightarrow> sl < length (hex_encode n sl)"
  using hex_digits_length_gt [of sl n] by (simp add: length_hex_encode)

lemma get_file_key_wellformed:
  assumes "fs p = Some (File content)" and "0 < hl" and "0 < sl" and "length content < 16 ^ sl"
  shows "\<exists>k. get_file_key sha256 fs p hl sl = Inr k \<and> length k = hl + sl
              \<and> set k \<subseteq> set ''0123456789abcdef''"
  using assms hex_encode_chars
  by (simp add: get_file_key_File length_hash_field length_size_field)

text \<open>
  C1. Two files with the same bytes get the same key, whatever their paths and whatever
  else the file systems hold: the key is computed, and it is the same string for both.
\<close>

theorem identical_content_identical_key:
  assumes "fs1 p1 = Some (File content)" and "fs2 p2 = Some (File content)"
  shows "\<exists>k. get_file_key sha256 fs1 p1 hl sl = Inr k \<and> get_file_key sha256 fs2 p2 hl sl = Inr k"
  using assms by (simp add: get_file_key_File)

theorem identical_content_identical_key_witness:
  "\<exists>k. get_file_key byte_sum (Map.empty(''a/x.jpg'' \<mapsto> File ''X'')) ''a/x.jpg'' HASH_LENGTH SIZE_LENGTH = Inr k
     \<and> get_file_key byte_sum (Map.empty(''b/y.png'' \<mapsto> File ''X'', ''a/x.jpg'' \<mapsto> File ''Z'')) ''b/y.png''
          HASH_LENGTH SIZE_LENGTH = Inr k"
  using identical_content_identical_key
    [of "Map.empty(''a/x.jpg'' \<mapsto> File ''X'')" "''a/x.jpg''" "''X''"
        "Map.empty(''b/y.png'' \<mapsto> File ''X'', ''a/x.jpg'' \<mapsto> File ''Z'')" "''b/y.png''"
        byte_sum HASH_LENGTH SIZE_LENGTH]
  by simp

text \<open>
  C7. The size field has a minimum width only. With the default widths a file of
  \<open>2 ^ 32\<close> bytes gets a size field of nine characters and a key of 41, not
  \<open>HASH_LENGTH + SIZE_LENGTH = 40\<close>, although \<open>get_file_size\<close> is documented to encode
  the size as a string of the given length and \<open>get_file_hash\<close> reduces its number to
  that end.
\<close>

theorem key_of_4GiB_file_has_41_characters:
  "\<exists>k. get_file_key sha256 (Map.empty(''big.mkv'' \<mapsto> File (replicate 4294967296 (CHR 0x00))))
          ''big.mkv'' HASH_LENGTH SIZE_LENGTH = Inr k
       \<and> length k = 41 \<and> length k \<noteq> HASH_LENGTH + SIZE_LENGTH"
proof -
  let ?n = "4294967296 :: nat"
  have lo: "(16::nat) ^ 8 \<le> ?n" by simp
  have hi: "?n < (16::nat) ^ 9" by simp
  have "8 < length (hex_digits ?n)" using lo by (rule hex_digits_length_gt)
  moreover have "length (hex_digits ?n) \<le> 9" using hi by (intro hex_digits_length_le) simp_all
  ultimately have "length (hex_encode ?n 8) = 9" by (simp add: length_hex_encode)
  moreover have "length (hex_encode (sha256 (replicate ?n (CHR 0x00)) mod 2 ^ (4 * 32)) 32) = 32"
    by (rule length_hash_field) simp
  ultimately show ?thesis
    by (simp add: get_file_key_File HASH_LENGTH_def SIZE_LENGTH_def)
qed

subsection \<open>Decision lists\<close>

lemma universal_newlines_id: "carriage_return \<notin> set s \<Longrightarrow> universal_newlines s = s"
  by (induction s rule: universal_newlines.induct) auto

lemma split_on_nonempty: "split_on sep s \<noteq> []"
  by (cases s) (auto split: list.splits)

lemma split_on_append:
  "sep \<notin> set k \<Longrightarrow> split_on sep (k @ sep # rest) = k # split_on sep rest"
  by (induction k) (auto split: list.splits)

lemma split_on_no_sep: "sep \<notin> set k \<Longrightarrow> split_on sep k = [k]"
  by (induction k) (auto split: list.splits)

lemma key_lines_concat: "key_lines fkeys = concat (map (\<lambda>fkey. fkey @ [newline]) fkeys)"
proof -
  have "foldl (\<lambda>written fkey. written @ fkey @ [newline]) acc fkeys
          = acc @ concat (map (\<lambda>fkey. fkey @ [newline]) fkeys)" for acc
    by (induction fkeys arbitrary: acc) auto
  then show ?thesis unfolding key_lines_def by simp
qed

lemma key_lines_Cons: "key_lines (k # ks) = k @ newline # key_lines ks"
  by (simp add: key_lines_concat)

lemma key_lines_Nil: "key_lines [] = []"
  by (simp add: key_lines_concat)

lemma split_key_lines:
  "\<forall>k \<in> set ks. newline \<notin> set k \<Longrightarrow> split_on newline (key_lines ks) = ks @ [[]]"
  by (induction ks) (auto simp: key_lines_Cons key_lines_Nil split_on_append)

lemma carriage_return_key_lines:
  "\<forall>k \<in> set ks. carriage_return \<notin> set k \<Longrightarrow> carriage_return \<notin> set (key_lines ks)"
  by (auto simp: key_lines_concat newline_def carriage_return_def)

lemma set_py_set: "set (py_set xs) = set xs"
  by (simp add: py_set_def)

lemma read_write_file_keys:
  assumes wf: "\<forall>k \<in> set ks. newline \<notin> set k \<and> carriage_return \<notin> set k"
    and wr: "write_file_keys fs p ks = Inr fs'"
  shows "read_file_keys fs' p = Inr (py_set (ks @ [[]]))"
proof -
  have "fs' p = Some (File (key_lines ks))"
    using wr by (auto simp: write_file_keys_def write_bytes_def split: if_splits)
  moreover have "universal_newlines (key_lines ks) = key_lines ks"
    using wf by (intro universal_newlines_id carriage_return_key_lines) simp
  moreover have "split_on newline (key_lines ks) = ks @ [[]]"
    using wf by (intro split_key_lines) simp
  ultimately show ?thesis by (simp add: read_file_keys_def read_bytes_def)
qed

text \<open>
  C3. Saving a set of keys and loading the file again gives the set back, with the empty
  string added: for keys that are not empty and hold no line break, the loaded set is
  \<open>S\<close> with the empty string, and without the empty string it is \<open>S\<close>.
\<close>

theorem decision_list_round_trip:
  assumes "\<forall>k \<in> set S. k \<noteq> [] \<and> newline \<notin> set k \<and> carriage_return \<notin> set k"
    and "write_file_keys fs p S = Inr fs'"
  shows "\<exists>loaded. read_file_keys fs' p = Inr loaded
           \<and> set loaded = insert [] (set S)
           \<and> set loaded - {[]} = set S"
proof -
  have "read_file_keys fs' p = Inr (py_set (S @ [[]]))"
    using assms by (intro read_write_file_keys) auto
  moreover have "set (py_set (S @ [[]])) = insert [] (set S)" by (simp add: set_py_set)
  moreover have "insert [] (set S) - {[]} = set S" using assms(1) by auto
  ultimately show ?thesis by simp
qed

theorem decision_list_round_trip_witness:
  "write_file_keys (Map.empty(''col'' \<mapsto> Directory)) ''col/.blacklist'' [''00ff0001'', ''abcd0002'']
       = Inr (Map.empty(''col'' \<mapsto> Directory, ''col/.blacklist'' \<mapsto> File (key_lines [''00ff0001'', ''abcd0002''])))
   \<and> (\<exists>loaded. read_file_keys
          (Map.empty(''col'' \<mapsto> Directory, ''col/.blacklist'' \<mapsto> File (key_lines [''00ff0001'', ''abcd0002''])))
          ''col/.blacklist'' = Inr loaded
        \<and> set loaded = insert [] (set [''00ff0001'', ''abcd0002''])
        \<and> set loaded - {[]} = set [''00ff0001'', ''abcd0002''])"
proof -
  have h1: "\<forall>k \<in> set [''00ff0001'', ''abcd0002'']. k \<noteq> [] \<and> newline \<notin> set k \<and> carriage_return \<notin> set k"
    by (simp add: newline_def carriage_return_def)
  have h2: "write_file_keys (Map.empty(''col'' \<mapsto> Directory)) ''col/.blacklist'' [''00ff0001'', ''abcd0002'']
       = Inr (Map.empty(''col'' \<mapsto> Directory, ''col/.blacklist'' \<mapsto> File (key_lines [''00ff0001'', ''abcd0002''])))"
    by (simp add: write_file_keys_def write_bytes_def isdir_def exists_path_def parent_exists_def
          dirname_def slash_def)
  from decision_list_round_trip [OF h1 h2] h2 show ?thesis by blast
qed

subsection \<open>Paths\<close>

lemma join_relative:
  "b = [] \<or> hd b \<noteq> slash \<Longrightarrow>
   join a b = (if a = [] \<or> last a = slash then a else a @ [slash]) @ b"
  by (auto simp: join_def)

lemma join_inject: 
  "b = [] \<or> hd b \<noteq> slash \<Longrightarrow> c = [] \<or> hd c \<noteq> slash \<Longrightarrow> join a b = join a c \<longleftrightarrow> b = c"
  by (simp add: join_relative)

lemma join_neq_self: "b \<noteq> [] \<Longrightarrow> hd b \<noteq> slash \<Longrightarrow> join a b \<noteq> a"
  by (auto simp: join_relative)

lemma collection_paths_distinct:
  "join d BLACKLIST_FILE \<noteq> d" "join d WHITELIST_FILE \<noteq> d"
  "join d AIRLOCK_DIR \<noteq> d" "join d GALLERY_DIR \<noteq> d"
  "join d BLACKLIST_FILE \<noteq> join d WHITELIST_FILE"
  "join d BLACKLIST_FILE \<noteq> join d AIRLOCK_DIR"
  "join d BLACKLIST_FILE \<noteq> join d GALLERY_DIR"
  "join d WHITELIST_FILE \<noteq> join d AIRLOCK_DIR"
  "join d WHITELIST_FILE \<noteq> join d GALLERY_DIR"
  "join d AIRLOCK_DIR \<noteq> join d GALLERY_DIR"
  by (simp_all add: join_relative BLACKLIST_FILE_def WHITELIST_FILE_def AIRLOCK_DIR_def
        GALLERY_DIR_def slash_def)

lemma last_join_const:
  "b \<noteq> [] \<Longrightarrow> hd b \<noteq> slash \<Longrightarrow> last (join a b) = last b"
  by (auto simp: join_relative)

lemma join_nonempty: "b \<noteq> [] \<Longrightarrow> join a b \<noteq> []"
  by (auto simp: join_def)

text \<open>An entry of a directory whose path does not end in a slash.\<close>

lemma join_entry:
  "d \<noteq> [] \<Longrightarrow> last d \<noteq> slash \<Longrightarrow> slash \<notin> set name \<Longrightarrow> join d name = d @ slash # name"
  by (cases name) (auto simp: join_def)

lemma dirname_entry:
  assumes "d \<noteq> []" and "last d \<noteq> slash" and "slash \<notin> set name"
  shows "dirname (d @ slash # name) = d"
proof -
  have "\<forall>x \<in> set (rev name). x \<noteq> slash" using assms(3) by auto
  then have a: "dropWhile (\<lambda>c. c \<noteq> slash) (rev name @ slash # rev d) = slash # rev d"
    using dropWhile_append2 [of "rev name" "\<lambda>c. c \<noteq> slash" "slash # rev d"] by simp
  have "hd (rev d) \<noteq> slash" using assms(1,2) by (simp add: hd_rev)
  then have b: "dropWhile (\<lambda>c. c = slash) (slash # rev d) = rev d"
    using assms(1) by (cases "rev d") auto
  have c: "\<exists>c \<in> set (d @ [slash]). c \<noteq> slash"
    using assms(1,2) last_in_set by fastforce
  show ?thesis
    using a b c by (simp add: dirname_def Let_def)
qed

lemma basename_entry:
  assumes "slash \<notin> set name"
  shows "basename (d @ slash # name) = name"
proof -
  have "\<forall>x \<in> set (rev name). x \<noteq> slash" using assms by auto
  then have "takeWhile (\<lambda>c. c \<noteq> slash) (rev name @ slash # rev d) = rev name"
    by (simp add: takeWhile_tail)
  then show ?thesis by (simp add: basename_def)
qed

lemma slash_notin_basename: "slash \<notin> set (basename p)"
proof -
  have "set (takeWhile (\<lambda>c. c \<noteq> slash) (rev p)) \<subseteq> {c. c \<noteq> slash}"
    by (auto dest: set_takeWhileD)
  then show ?thesis by (auto simp: basename_def)
qed

lemma airlock_shape: "get_airlock col \<noteq> [] \<and> last (get_airlock col) \<noteq> slash"
  by (simp add: get_airlock_def join_nonempty last_join_const AIRLOCK_DIR_def slash_def)

lemma gallery_shape: "get_gallery col \<noteq> [] \<and> last (get_gallery col) \<noteq> slash"
  by (simp add: get_gallery_def join_nonempty last_join_const GALLERY_DIR_def slash_def)

lemma airlock_entry_not_decision_file:
  assumes "slash \<notin> set name"
  shows "join (get_airlock col) name \<noteq> join (directory col) BLACKLIST_FILE"
    and "join (get_airlock col) name \<noteq> join (directory col) WHITELIST_FILE"
  using assms airlock_shape [of col]
  by (simp_all add: join_entry, simp_all add: get_airlock_def join_relative AIRLOCK_DIR_def
        BLACKLIST_FILE_def WHITELIST_FILE_def slash_def)

subsection \<open>Reading decision lists\<close>

lemma read_file_keys_File:
  "fs p = Some (File content) \<Longrightarrow>
   read_file_keys fs p = Inr (py_set (split_on newline (universal_newlines content)))"
  by (simp add: read_file_keys_def read_bytes_def)

lemma read_file_keys_Inr:
  "read_file_keys fs p = Inr ks \<Longrightarrow>
   \<exists>content. fs p = Some (File content)
     \<and> ks = py_set (split_on newline (universal_newlines content))"
  by (auto simp: read_file_keys_def read_bytes_def split: option.splits node.splits)

lemma universal_newlines_no_cr: "carriage_return \<notin> set (universal_newlines s)"
  by (induction s rule: universal_newlines.induct) (auto simp: newline_def carriage_return_def)

lemma split_on_pieces: "k \<in> set (split_on sep s) \<Longrightarrow> sep \<notin> set k \<and> set k \<subseteq> set s"
proof (induction s arbitrary: k)
  case Nil
  then show ?case by simp
next
  case (Cons c cs)
  show ?case
  proof (cases "c = sep")
    case True
    then show ?thesis using Cons by auto
  next
    case False
    obtain w ws where sp: "split_on sep cs = w # ws"
      using split_on_nonempty [of sep cs] by (cases "split_on sep cs") auto
    then have "k = c # w \<or> k \<in> set ws" using Cons.prems False by simp
    moreover have "sep \<notin> set w \<and> set w \<subseteq> set cs" using Cons.IH [of w] sp by simp
    moreover have "k \<in> set ws \<Longrightarrow> sep \<notin> set k \<and> set k \<subseteq> set cs" using Cons.IH [of k] sp by simp
    ultimately show ?thesis using False by auto
  qed
qed

lemma read_file_keys_clean: "read_file_keys fs p = Inr ks \<Longrightarrow> clean_keys ks"
  using universal_newlines_no_cr
  by (fastforce simp: clean_keys_def set_py_set dest!: read_file_keys_Inr dest: split_on_pieces)



lemma universal_newlines_snoc:
  "universal_newlines (s @ [newline]) \<noteq> [] \<and> last (universal_newlines (s @ [newline])) = newline"
  by (induction s rule: universal_newlines.induct) (auto simp: newline_def carriage_return_def)

lemma universal_newlines_last:
  assumes "s \<noteq> []" and "last s = newline"
  shows "universal_newlines s \<noteq> [] \<and> last (universal_newlines s) = newline"
proof -
  have "s = butlast s @ [newline]" using assms append_butlast_last_id [of s] by simp
  then show ?thesis using universal_newlines_snoc [of "butlast s"] by simp
qed



subsection \<open>Opening and closing\<close>

lemma isfile_iff: "isfile fs p \<longleftrightarrow> (\<exists>content. fs p = Some (File content))"
  by (auto simp: isfile_def split: option.splits node.splits)

lemma world_files_same: "w\<lparr>files := files w\<rparr> = w"
  by simp

lemma Collection_exit_opened:
  assumes "opened col w"
  shows "Collection_exit col w =
           (None, w\<lparr>files := (files w)
              (join (directory col) BLACKLIST_FILE \<mapsto> File (key_lines (blacklist col)),
               join (directory col) WHITELIST_FILE \<mapsto> File (key_lines (whitelist col)))\<rparr>)"
  using assms collection_paths_distinct(5) [of "directory col"]
  by (auto simp: opened_def Collection_exit_def write_file_keys_def write_bytes_def isdir_def
        isfile_iff exists_path_def Let_def)

lemma Collection_init_opened:
  assumes "opened col w"
    and "files w (join (directory col) BLACKLIST_FILE) = Some (File cb)"
    and "files w (join (directory col) WHITELIST_FILE) = Some (File cw)"
  shows "Collection_init w (directory col) =
           (Inr \<lparr>directory = directory col,
                 blacklist = py_set (split_on newline (universal_newlines cb)),
                 whitelist = py_set (split_on newline (universal_newlines cw))\<rparr>, w)"
  using assms
  by (simp add: opened_def Collection_init_def ensure_dir_def ensure_file_def isfile_iff
        get_airlock_def get_gallery_def read_file_keys_File Let_def)

lemma ensure_dir_Inr:
  "ensure_dir fs p = Inr fs' \<Longrightarrow> isdir fs' p \<and> (\<forall>q. q \<noteq> p \<longrightarrow> fs' q = fs q)"
  by (auto simp: ensure_dir_def mkdir_def isdir_def split: if_splits)

lemma ensure_file_Inr:
  "ensure_file fs p = Inr fs' \<Longrightarrow>
   (\<forall>q. q \<noteq> p \<longrightarrow> fs' q = fs q)
   \<and> fs' p = (case fs p of Some (File content) \<Rightarrow> Some (File content) | _ \<Rightarrow> Some (File []))"
  by (auto simp: ensure_file_def open_append_close_def isfile_def
           split: if_splits option.splits node.splits)

lemma Collection_init_Inr:
  assumes "Collection_init w d = (Inr col, w')"
  shows "directory col = d" and "opened col w'" and "stdout w' = stdout w"
    and "read_file_keys (files w') (join d BLACKLIST_FILE) = Inr (blacklist col)"
    and "read_file_keys (files w') (join d WHITELIST_FILE) = Inr (whitelist col)"
    and "files w' (join d BLACKLIST_FILE) =
           (case files w (join d BLACKLIST_FILE) of
              Some (File content) \<Rightarrow> Some (File content) | _ \<Rightarrow> Some (File []))"
    and "files w' (join d WHITELIST_FILE) =
           (case files w (join d WHITELIST_FILE) of
              Some (File content) \<Rightarrow> Some (File content) | _ \<Rightarrow> Some (File []))"
proof -
  let ?bl = "join d BLACKLIST_FILE" and ?wl = "join d WHITELIST_FILE"
  let ?al = "join d AIRLOCK_DIR" and ?ga = "join d GALLERY_DIR"
  from assms obtain fs1 fs2 fs3 fs4 fs5 bl wl where
    s1: "ensure_dir (files w) d = Inr fs1" and
    s2: "ensure_file fs1 ?bl = Inr fs2" and
    s3: "ensure_file fs2 ?wl = Inr fs3" and
    s4: "ensure_dir fs3 ?al = Inr fs4" and
    s5: "ensure_dir fs4 ?ga = Inr fs5" and
    r1: "read_file_keys fs5 ?bl = Inr bl" and
    r2: "read_file_keys fs5 ?wl = Inr wl" and
    col: "col = \<lparr>directory = d, blacklist = bl, whitelist = wl\<rparr>" and
    w': "w' = w\<lparr>files := fs5\<rparr>"
    unfolding Collection_init_def Let_def
    by (auto split: sum.splits)
  note d = collection_paths_distinct [of d]
  note e1 = ensure_dir_Inr [OF s1] and e2 = ensure_file_Inr [OF s2]
    and e3 = ensure_file_Inr [OF s3] and e4 = ensure_dir_Inr [OF s4]
    and e5 = ensure_dir_Inr [OF s5]
  show "directory col = d" using col by simp
  show "stdout w' = stdout w" using w' by simp
  show "read_file_keys (files w') ?bl = Inr (blacklist col)" using r1 col w' by simp
  show "read_file_keys (files w') ?wl = Inr (whitelist col)" using r2 col w' by simp
  have bl5: "fs5 ?bl = fs2 ?bl" using e3 e4 e5 d by simp
  have wl5: "fs5 ?wl = fs3 ?wl" using e4 e5 d by simp
  have bl1: "fs1 ?bl = files w ?bl" using e1 d by simp
  have wl2: "fs2 ?wl = files w ?wl" using e1 e2 d by (metis (no_types))
  show "files w' ?bl =
          (case files w ?bl of Some (File content) \<Rightarrow> Some (File content) | _ \<Rightarrow> Some (File []))"
    using bl5 bl1 e2 w' by simp
  show "files w' ?wl =
          (case files w ?wl of Some (File content) \<Rightarrow> Some (File content) | _ \<Rightarrow> Some (File []))"
    using wl5 wl2 e3 w' by simp
  have "isdir fs5 d" using e1 e2 e3 e4 e5 d unfolding isdir_def by (metis (no_types))
  moreover have "isfile fs5 ?bl"
    using r1 by (auto simp: isfile_iff dest: read_file_keys_Inr)
  moreover have "isfile fs5 ?wl"
    using r2 by (auto simp: isfile_iff dest: read_file_keys_Inr)
  moreover have "isdir fs5 ?al" using e4 e5 d unfolding isdir_def by (metis (no_types))
  moreover have "isdir fs5 ?ga" using e5 by simp
  ultimately show "opened col w'"
    using col w' by (simp add: opened_def get_airlock_def get_gallery_def)
qed








subsection \<open>A key of the set is read back\<close>

lemma universal_newlines_append:
  "xs = [] \<or> last xs \<noteq> carriage_return \<Longrightarrow>
   universal_newlines (xs @ ys) = universal_newlines xs @ universal_newlines ys"
proof (induction xs rule: universal_newlines.induct)
  case 1
  then show ?case by simp
next
  case (2 c)
  then show ?case by (cases ys) auto
next
  case (3 c d cs)
  have tail: "d # cs = [] \<or> last (d # cs) \<noteq> carriage_return" using "3.prems" by simp
  show ?case
  proof (cases "c = carriage_return \<and> d = newline")
    case True
    have "cs = [] \<or> last cs \<noteq> carriage_return" using "3.prems" by (cases cs) auto
    then show ?thesis using True "3.IH"(1) by simp
  next
    case False
    then show ?thesis using "3.IH"(2,3) tail by (cases "c = carriage_return") auto
  qed
qed

lemma split_on_sep_append:
  "split_on sep (xs @ sep # ys) = split_on sep xs @ split_on sep ys"
proof (induction xs)
  case Nil
  then show ?case by simp
next
  case (Cons c cs)
  obtain w ws where "split_on sep cs = w # ws"
    using split_on_nonempty [of sep cs] by (cases "split_on sep cs") auto
  then show ?case using Cons by simp
qed

lemma key_lines_append: "key_lines (xs @ ys) = key_lines xs @ key_lines ys"
  by (simp add: key_lines_concat)

lemma last_key_lines: "ks \<noteq> [] \<Longrightarrow> last (key_lines ks) = newline"
  by (cases ks rule: rev_cases) (simp_all add: key_lines_concat)

lemma key_lines_nonempty: "ks \<noteq> [] \<Longrightarrow> key_lines ks \<noteq> []"
  by (cases ks) (simp_all add: key_lines_Cons)

lemma key_read_back:
  assumes "k \<in> set ks" and "newline \<notin> set k" and "carriage_return \<notin> set k"
  shows "k \<in> set (split_on newline (universal_newlines (key_lines ks)))"
proof -
  obtain xs ys where ks: "ks = xs @ k # ys" using assms(1) by (auto simp: in_set_conv_decomp)
  let ?A = "key_lines xs" and ?B = "key_lines ys"
  have nc: "newline \<noteq> carriage_return" by (simp add: newline_def carriage_return_def)
  have A: "?A = [] \<or> last ?A \<noteq> carriage_return"
    using last_key_lines [of xs] key_lines_Nil nc by (cases "xs = []") auto
  have "key_lines ks = ?A @ (k @ [newline]) @ ?B"
    by (simp add: ks key_lines_append key_lines_Cons)
  moreover have "universal_newlines (?A @ (k @ [newline]) @ ?B)
               = universal_newlines ?A @ universal_newlines ((k @ [newline]) @ ?B)"
    using A by (rule universal_newlines_append)
  moreover have "universal_newlines ((k @ [newline]) @ ?B)
               = universal_newlines (k @ [newline]) @ universal_newlines ?B"
    using nc by (intro universal_newlines_append) simp
  moreover have "universal_newlines (k @ [newline]) = k @ [newline]"
    using assms(3) nc by (intro universal_newlines_id) auto
  ultimately have u: "universal_newlines (key_lines ks)
               = universal_newlines ?A @ k @ newline # universal_newlines ?B" by simp
  have k: "split_on newline (k @ newline # universal_newlines ?B)
             = k # split_on newline (universal_newlines ?B)"
    using assms(2) by (rule split_on_append)
  show ?thesis
  proof (cases "xs = []")
    case True
    then show ?thesis using u k by (simp add: key_lines_Nil)
  next
    case False
    then have "universal_newlines ?A \<noteq> [] \<and> last (universal_newlines ?A) = newline"
      using universal_newlines_last [of ?A] last_key_lines key_lines_nonempty by simp
    then obtain P where "universal_newlines ?A = P @ [newline]"
      using append_butlast_last_id [of "universal_newlines ?A"] by metis
    then have "universal_newlines (key_lines ks) = P @ newline # (k @ newline # universal_newlines ?B)"
      using u by simp
    then have "split_on newline (universal_newlines (key_lines ks))
                 = split_on newline P @ k # split_on newline (universal_newlines ?B)"
      using k by (simp only: split_on_sep_append)
    then show ?thesis by simp
  qed
qed

lemma set_py_set_update: "set (py_set_update s xs) = set s \<union> set xs"
proof -
  have "set (foldl (\<lambda>acc x. if x \<in> set acc then acc else acc @ [x]) acc xs) = set acc \<union> set xs" for acc
    by (induction xs arbitrary: acc) auto
  then show ?thesis by (simp add: py_set_update_def)
qed

lemma hex_chars_clean:
  "set k \<subseteq> set ''0123456789abcdef'' \<Longrightarrow>
   newline \<notin> set k \<and> carriage_return \<notin> set k \<and> slash \<notin> set k"
  by (auto simp: newline_def carriage_return_def slash_def)

lemma get_file_key_chars:
  "get_file_key sha256 fs p hl sl = Inr k \<Longrightarrow> k \<noteq> [] \<and> set k \<subseteq> set ''0123456789abcdef''"
proof -
  assume a: "get_file_key sha256 fs p hl sl = Inr k"
  then obtain content where "fs p = Some (File content)"
    using get_file_key_Inr_iff [of sha256 fs p hl sl] by blast
  then have k: "k = hex_encode (sha256 content mod 2 ^ (4 * hl)) hl @ hex_encode (length content) sl"
    using a by (simp add: get_file_key_File)
  have "hex_encode (length content) sl \<noteq> []"
    using hex_digits_nonempty by (simp add: hex_encode_def Let_def)
  then show ?thesis using k hex_encode_chars by auto
qed

lemma opened_cong:
  "directory col' = directory col \<Longrightarrow>
   files w' (directory col) = files w (directory col) \<Longrightarrow>
   files w' (join (directory col) BLACKLIST_FILE) = files w (join (directory col) BLACKLIST_FILE) \<Longrightarrow>
   files w' (join (directory col) WHITELIST_FILE) = files w (join (directory col) WHITELIST_FILE) \<Longrightarrow>
   files w' (get_airlock col) = files w (get_airlock col) \<Longrightarrow>
   files w' (get_gallery col) = files w (get_gallery col) \<Longrightarrow>
   opened col' w' = opened col w"
  by (simp add: opened_def isdir_def isfile_def get_airlock_def get_gallery_def)

text \<open>Closing an open collection and opening it again.\<close>

lemma reopen:
  assumes "opened col w"
  shows "\<exists>w2 col2. Collection_exit col w = (None, w2)
           \<and> Collection_init w2 (directory col) = (Inr col2, w2)
           \<and> directory col2 = directory col
           \<and> (\<forall>k. k \<in> set (blacklist col) \<and> newline \<notin> set k \<and> carriage_return \<notin> set k
                 \<longrightarrow> k \<in> set (blacklist col2))
           \<and> (\<forall>k. k \<in> set (whitelist col) \<and> newline \<notin> set k \<and> carriage_return \<notin> set k
                 \<longrightarrow> k \<in> set (whitelist col2))
           \<and> (\<forall>p. p \<noteq> join (directory col) BLACKLIST_FILE \<and> p \<noteq> join (directory col) WHITELIST_FILE
                 \<longrightarrow> files w2 p = files w p)
           \<and> files w2 (join (directory col) BLACKLIST_FILE) = Some (File (key_lines (blacklist col)))
           \<and> files w2 (join (directory col) WHITELIST_FILE) = Some (File (key_lines (whitelist col)))
           \<and> stdout w2 = stdout w"
proof -
  let ?bl = "join (directory col) BLACKLIST_FILE" and ?wl = "join (directory col) WHITELIST_FILE"
  let ?w2 = "w\<lparr>files := (files w)(?bl \<mapsto> File (key_lines (blacklist col)),
                                   ?wl \<mapsto> File (key_lines (whitelist col)))\<rparr>"
  note d = collection_paths_distinct [of "directory col"]
  have ex: "Collection_exit col w = (None, ?w2)" using assms by (rule Collection_exit_opened)
  have op2: "opened col ?w2"
    using assms d by (auto simp: opened_def isdir_def isfile_def get_airlock_def get_gallery_def)
  have b: "files ?w2 ?bl = Some (File (key_lines (blacklist col)))" using d by simp
  have c: "files ?w2 ?wl = Some (File (key_lines (whitelist col)))" by simp
  have "Collection_init ?w2 (directory col) =
          (Inr \<lparr>directory = directory col,
                blacklist = py_set (split_on newline (universal_newlines (key_lines (blacklist col)))),
                whitelist = py_set (split_on newline (universal_newlines (key_lines (whitelist col))))\<rparr>,
           ?w2)"
    using op2 b c by (rule Collection_init_opened)
  then show ?thesis
    using ex b c by (auto simp: set_py_set key_read_back)
qed

lemma staged_path:
  assumes "slash \<notin> set name"
  shows "join (get_airlock col) name = get_airlock col @ slash # name"
  using assms airlock_shape [of col] by (simp add: join_entry)

lemma staged_not_gallery_entry:
  assumes "slash \<notin> set name" and "slash \<notin> set name'"
  shows "join (get_airlock col) name \<noteq> join (get_gallery col) name'"
proof
  assume eq: "join (get_airlock col) name = join (get_gallery col) name'"
  have a: "join (get_airlock col) name = get_airlock col @ slash # name"
    using assms(1) by (rule staged_path)
  have g: "join (get_gallery col) name' = get_gallery col @ slash # name'"
    using assms(2) gallery_shape [of col] by (simp add: join_entry)
  have "dirname (get_airlock col @ slash # name) = get_airlock col"
    using assms(1) airlock_shape [of col] by (simp add: dirname_entry)
  moreover have "dirname (get_gallery col @ slash # name') = get_gallery col"
    using assms(2) gallery_shape [of col] by (simp add: dirname_entry)
  ultimately have "get_airlock col = get_gallery col" using eq a g by simp
  then show False
    using collection_paths_distinct(10) [of "directory col"]
    by (simp add: get_airlock_def get_gallery_def)
qed

lemma opened_paths_not_file:
  assumes "opened col w" and "files w fname = Some (File content)"
  shows "fname \<noteq> directory col" and "fname \<noteq> get_airlock col" and "fname \<noteq> get_gallery col"
  using assms by (auto simp: opened_def isdir_def)

text \<open>
  C4. The player shows a regular file of the airlock and the blacklist key is released.
  The handler then ends without an exception; closing the collection and opening it again
  succeed, the key of the file is in the blacklist that is loaded, and the file is no longer
  in the airlock. The other keys of the collection are arbitrary.
\<close>

theorem rejected_key_known_after_reopen:
  assumes "opened col w"
    and "py_index (playlist pl) (playlist_pos pl) = Inr (join (get_airlock col) name)"
    and "slash \<notin> set name"
    and "files w (join (get_airlock col) name) = Some (File content)"
    and "state = CHR ''u'' # rest"
  shows "\<exists>k col1 pl1 w1 w2 col2.
           get_file_key sha256 (files w) (join (get_airlock col) name) HASH_LENGTH SIZE_LENGTH = Inr k
         \<and> blacklist_handler sha256 col pl w state = (None, col1, pl1, w1)
         \<and> Collection_exit col1 w1 = (None, w2)
         \<and> Collection_init w2 (directory col1) = (Inr col2, w2)
         \<and> is_blacklisted col2 k
         \<and> files w2 (join (get_airlock col) name) = None"
proof -
  let ?fname = "join (get_airlock col) name"
  obtain k where k: "get_file_key sha256 (files w) ?fname HASH_LENGTH SIZE_LENGTH = Inr k"
    using assms(4) by (simp add: get_file_key_File)
  let ?col1 = "blacklist_file col k"
  let ?w1 = "print (w\<lparr>files := (files w)(?fname := None)\<rparr>) (''Blacklisted: '' @ ?fname)"
  have h: "blacklist_handler sha256 col pl w state = (None, ?col1, playlist_remove pl, ?w1)"
    using assms(2,4,5) k by (simp add: blacklist_handler_def os_remove_def Let_def)
  have ne: "?fname \<noteq> join (directory col) BLACKLIST_FILE" "?fname \<noteq> join (directory col) WHITELIST_FILE"
    using airlock_entry_not_decision_file [OF assms(3)] by simp_all
  have dir1: "directory ?col1 = directory col" by (simp add: blacklist_file_def)
  have op1: "opened ?col1 ?w1"
    using assms(1) opened_paths_not_file [OF assms(1,4)] ne
    by (simp add: opened_def blacklist_file_def print_def isdir_def isfile_def
          get_airlock_def get_gallery_def)
  obtain w2 col2 where r:
    "Collection_exit ?col1 ?w1 = (None, w2)"
    "Collection_init w2 (directory ?col1) = (Inr col2, w2)"
    "\<forall>k. k \<in> set (blacklist ?col1) \<and> newline \<notin> set k \<and> carriage_return \<notin> set k
           \<longrightarrow> k \<in> set (blacklist col2)"
    "\<forall>p. p \<noteq> join (directory ?col1) BLACKLIST_FILE \<and> p \<noteq> join (directory ?col1) WHITELIST_FILE
           \<longrightarrow> files w2 p = files ?w1 p"
    using reopen [OF op1] by blast
  have "k \<in> set (blacklist ?col1)" by (simp add: blacklist_file_def set_py_set_update)
  moreover have "newline \<notin> set k \<and> carriage_return \<notin> set k"
    using get_file_key_chars [OF k] hex_chars_clean by blast
  ultimately have "is_blacklisted col2 k" using r(3) by (simp add: is_blacklisted_def)
  moreover have "files w2 ?fname = None" using r(4) ne dir1 by (simp add: print_def)
  ultimately show ?thesis using k h r(1,2) by blast
qed

lemma whitelist_handler_staged:
  assumes "opened col w"
    and "py_index (playlist pl) (playlist_pos pl) = Inr (join (get_airlock col) name)"
    and "slash \<notin> set name"
    and "files w (join (get_airlock col) name) = Some (File content)"
    and "files w (join (get_gallery col) name) \<noteq> Some Directory"
    and "state = CHR ''u'' # rest"
    and "get_file_key sha256 (files w) (join (get_airlock col) name) HASH_LENGTH SIZE_LENGTH = Inr k"
  shows "whitelist_handler sha256 col pl w state =
           (None, whitelist_file col k, playlist_remove pl,
            print (w\<lparr>files := ((files w)(join (get_airlock col) name := None))
                                (join (get_gallery col) name \<mapsto> File content)\<rparr>)
              (''Whitelisted: '' @ join (get_airlock col) name))"
    and "join (get_airlock col) name \<noteq> join (get_gallery col) name"
    and "basename (join (get_airlock col) name) = name"
proof -
  let ?fname = "join (get_airlock col) name" and ?dst = "join (get_gallery col) name"
  show b: "basename ?fname = name"
    using assms(3) by (simp add: staged_path basename_entry)
  have g: "?dst = get_gallery col @ slash # name"
    using assms(3) gallery_shape [of col] by (simp add: join_entry)
  have "dirname ?dst = get_gallery col"
    using assms(3) gallery_shape [of col] g by (simp add: dirname_entry)
  then have par: "parent_exists (files w) ?dst"
    using assms(1) by (simp add: parent_exists_def opened_def)
  show ne: "?fname \<noteq> ?dst" using assms(3) by (simp add: staged_not_gallery_entry)
  have mv: "shutil_move (files w) ?fname ?dst = Inr (((files w)(?fname := None))(?dst \<mapsto> File content))"
    using assms(4,5) par ne by (simp add: shutil_move_def isdir_def Let_def)
  show "whitelist_handler sha256 col pl w state =
           (None, whitelist_file col k, playlist_remove pl,
            print (w\<lparr>files := ((files w)(?fname := None))(?dst \<mapsto> File content)\<rparr>)
              (''Whitelisted: '' @ ?fname))"
    using assms(2,6,7) b mv by (simp add: whitelist_handler_def Let_def)
qed

text \<open>
  C5, as the code has it. The player shows a regular file of the airlock, no directory
  of its name is in the gallery, and the whitelist key is released. The handler then ends
  without an exception: the file is gone from the airlock, the gallery holds its bytes
  under the name it had in the airlock, and its key is in the whitelist.
\<close>

theorem accepted_file_keeps_staged_name:
  assumes "opened col w"
    and "py_index (playlist pl) (playlist_pos pl) = Inr (join (get_airlock col) name)"
    and "slash \<notin> set name"
    and "files w (join (get_airlock col) name) = Some (File content)"
    and "files w (join (get_gallery col) name) \<noteq> Some Directory"
    and "state = CHR ''u'' # rest"
  shows "\<exists>k col1 pl1 w1.
           get_file_key sha256 (files w) (join (get_airlock col) name) HASH_LENGTH SIZE_LENGTH = Inr k
         \<and> whitelist_handler sha256 col pl w state = (None, col1, pl1, w1)
         \<and> basename (join (get_airlock col) name) = name
         \<and> files w1 (join (get_airlock col) name) = None
         \<and> files w1 (join (get_gallery col) name) = Some (File content)
         \<and> is_whitelisted col1 k"
proof -
  obtain k where k: "get_file_key sha256 (files w) (join (get_airlock col) name) HASH_LENGTH SIZE_LENGTH = Inr k"
    using assms(4) by (simp add: get_file_key_File)
  note r = whitelist_handler_staged [OF assms k]
  have "is_whitelisted (whitelist_file col k) k"
    by (simp add: is_whitelisted_def whitelist_file_def set_py_set_update)
  then show ?thesis using k r by (simp add: print_def)
qed




lemma main_modes:
  "given (arg_source ARGS) \<Longrightarrow> isdir (files w) (the (arg_source ARGS)) \<Longrightarrow>
     main sha256 walk sort_airlock view_collection to_int ARGS w =
       with_Collection (arg_collection ARGS)
         (\<lambda>COL w'. case import_files sha256 COL w' walk of (raised, w'') \<Rightarrow> (raised, COL, w'')) w"
  "\<not> given (arg_source ARGS) \<Longrightarrow> given (arg_view ARGS) \<Longrightarrow>
     main sha256 walk sort_airlock view_collection to_int ARGS w =
       with_Collection (arg_collection ARGS)
         (\<lambda>COL w'. case to_int (the (arg_view ARGS)) of
                      Inl e \<Rightarrow> (Some e, COL, w')
                    | Inr wait \<Rightarrow> view_collection COL wait w') w"
  "\<not> given (arg_source ARGS) \<Longrightarrow> \<not> given (arg_view ARGS) \<Longrightarrow>
     main sha256 walk sort_airlock view_collection to_int ARGS w =
       with_Collection (arg_collection ARGS) sort_airlock w"
  by (simp_all add: main_def Let_def)

subsection \<open>One file\<close>

lemma slash_notin_extension: "slash \<notin> set (get_file_extension fil)"
proof -
  have "set (rev (takeWhile (\<lambda>c. c \<noteq> dot) (rev (basename fil)))) \<subseteq> set (basename fil)"
    by (auto dest: set_takeWhileD)
  then show ?thesis
    using slash_notin_basename [of fil]
    by (auto simp: get_file_extension_def splitext_ext_def Let_def dot_def slash_def)
qed

lemma staging_path_shape:
  assumes "get_file_key sha256 fs p hl sl = Inr fkey"
  shows "slash \<notin> set (fkey @ get_file_extension fil)"
    and "staging_path col fkey fil = get_airlock col @ slash # fkey @ get_file_extension fil"
proof -
  show s: "slash \<notin> set (fkey @ get_file_extension fil)"
    using get_file_key_chars [OF assms] hex_chars_clean [of fkey] slash_notin_extension by auto
  show "staging_path col fkey fil = get_airlock col @ slash # fkey @ get_file_extension fil"
    using staged_path [OF s] by (simp add: staging_path_def)
qed

text \<open>What one pass of the loop does, case by case.\<close>

lemma body_unreadable:
  "get_file_key sha256 (files w) (join root fil) HASH_LENGTH SIZE_LENGTH = Inl e \<Longrightarrow>
   import_files_body sha256 col w root fil = (Some e, w)"
  by (simp add: import_files_body_def Let_def)

lemma body_ignored:
  "get_file_key sha256 (files w) (join root fil) HASH_LENGTH SIZE_LENGTH = Inr fkey \<Longrightarrow>
   get_file_extension fil \<in> IGNORED_EXT \<or> known col fkey \<Longrightarrow>
   import_files_body sha256 col w root fil = (None, print w (''- Ignored: '' @ join root fil))"
  unfolding import_files_body_def Let_def known_def by (cases "get_file_extension fil \<in> IGNORED_EXT") auto

lemma body_staged:
  "get_file_key sha256 (files w) (join root fil) HASH_LENGTH SIZE_LENGTH = Inr fkey \<Longrightarrow>
   get_file_extension fil \<notin> IGNORED_EXT \<Longrightarrow> \<not> known col fkey \<Longrightarrow>
   exists_path (files w) (staging_path col fkey fil) \<Longrightarrow>
   import_files_body sha256 col w root fil = (None, w)"
  by (simp add: import_files_body_def Let_def known_def staging_path_def)

lemma shutil_copy_new:
  "fs src = Some (File content) \<Longrightarrow> fs dst = None \<Longrightarrow>
   shutil_copy fs src dst =
     (if parent_exists fs dst then Inr (fs(dst \<mapsto> File content)) else Inl FileNotFoundError)"
  by (auto simp: shutil_copy_def write_bytes_def read_bytes_def isdir_def exists_path_def Let_def)

lemma body_copy:
  "get_file_key sha256 (files w) (join root fil) HASH_LENGTH SIZE_LENGTH = Inr fkey \<Longrightarrow>
   get_file_extension fil \<notin> IGNORED_EXT \<Longrightarrow> \<not> known col fkey \<Longrightarrow>
   files w (staging_path col fkey fil) = None \<Longrightarrow>
   files w (join root fil) = Some (File content) \<Longrightarrow>
   import_files_body sha256 col w root fil =
     (if parent_exists (files w) (staging_path col fkey fil)
      then (None, print (w\<lparr>files := (files w)(staging_path col fkey fil \<mapsto> File content)\<rparr>)
                    (''+ Copied:  '' @ join root fil @ '' -> '' @ staging_path col fkey fil))
      else (Some FileNotFoundError, w))"
  by (simp add: import_files_body_def Let_def known_def staging_path_def exists_path_def
        shutil_copy_new)

lemma import_files_body_elim [consumes 1, case_names unreadable ignored staged failed copied]:
  assumes "import_files_body sha256 col w root fil = (r, w')"
  obtains
    (unreadable) e where
      "get_file_key sha256 (files w) (join root fil) HASH_LENGTH SIZE_LENGTH = Inl e"
      "r = Some e" "w' = w"
  | (ignored) fkey where
      "get_file_key sha256 (files w) (join root fil) HASH_LENGTH SIZE_LENGTH = Inr fkey"
      "get_file_extension fil \<in> IGNORED_EXT \<or> known col fkey"
      "r = None" "w' = print w (''- Ignored: '' @ join root fil)"
  | (staged) fkey where
      "get_file_key sha256 (files w) (join root fil) HASH_LENGTH SIZE_LENGTH = Inr fkey"
      "get_file_extension fil \<notin> IGNORED_EXT" "\<not> known col fkey"
      "exists_path (files w) (staging_path col fkey fil)"
      "r = None" "w' = w"
  | (failed) fkey e where
      "get_file_key sha256 (files w) (join root fil) HASH_LENGTH SIZE_LENGTH = Inr fkey"
      "get_file_extension fil \<notin> IGNORED_EXT" "\<not> known col fkey"
      "files w (staging_path col fkey fil) = None"
      "r = Some e" "w' = w"
  | (copied) fkey content where
      "get_file_key sha256 (files w) (join root fil) HASH_LENGTH SIZE_LENGTH = Inr fkey"
      "get_file_extension fil \<notin> IGNORED_EXT" "\<not> known col fkey"
      "files w (staging_path col fkey fil) = None"
      "files w (join root fil) = Some (File content)"
      "r = None"
      "w' = print (w\<lparr>files := (files w)(staging_path col fkey fil \<mapsto> File content)\<rparr>)
              (''+ Copied:  '' @ join root fil @ '' -> '' @ staging_path col fkey fil)"
proof (cases "get_file_key sha256 (files w) (join root fil) HASH_LENGTH SIZE_LENGTH")
  case (Inl e)
  then have "r = Some e" "w' = w" using assms body_unreadable [OF Inl, of col] by simp_all
  then show ?thesis using Inl unreadable by blast
next
  case (Inr fkey)
  then obtain content where c: "files w (join root fil) = Some (File content)"
    using get_file_key_Inr_iff [of sha256 "files w" "join root fil" HASH_LENGTH SIZE_LENGTH] by auto
  show ?thesis
  proof (cases "get_file_extension fil \<in> IGNORED_EXT \<or> known col fkey")
    case True
    then have "r = None" "w' = print w (''- Ignored: '' @ join root fil)"
      using assms body_ignored [OF Inr True] by simp_all
    then show ?thesis using Inr True ignored by blast
  next
    case False
    then have f: "get_file_extension fil \<notin> IGNORED_EXT" "\<not> known col fkey" by simp_all
    show ?thesis
    proof (cases "files w (staging_path col fkey fil)")
      case (Some n)
      then have ex: "exists_path (files w) (staging_path col fkey fil)" by (simp add: exists_path_def)
      then have "r = None" "w' = w" using assms body_staged [OF Inr f ex] by simp_all
      then show ?thesis using Inr f ex staged by blast
    next
      case None
      note eq = body_copy [OF Inr f None c]
      show ?thesis
      proof (cases "parent_exists (files w) (staging_path col fkey fil)")
        case True
        then have "r = None"
          "w' = print (w\<lparr>files := (files w)(staging_path col fkey fil \<mapsto> File content)\<rparr>)
                  (''+ Copied:  '' @ join root fil @ '' -> '' @ staging_path col fkey fil)"
          using assms eq by simp_all
        then show ?thesis using Inr f None c copied by blast
      next
        case False
        then have "r = Some FileNotFoundError" "w' = w" using assms eq by simp_all
        then show ?thesis using Inr f None failed by blast
      qed
    qed
  qed
qed

lemma stages_only_refl: "stages_only sha256 col L w w"
  by (auto simp: stages_only_def)

lemma stages_only_print: "stages_only sha256 col L w (print w line)"
  by (auto simp: stages_only_def print_def)

lemma stages_only_mono:
  "stages_only sha256 col L w w' \<Longrightarrow> L \<subseteq> M \<Longrightarrow> stages_only sha256 col M w w'"
  unfolding stages_only_def by blast

lemma stages_only_keeps:
  "stages_only sha256 col L w w' \<Longrightarrow> files w p \<noteq> None \<Longrightarrow> files w' p = files w p"
  by (simp add: stages_only_def)

lemma stages_only_new:
  assumes "stages_only sha256 col L w w'" and "files w p = None" and "files w' p \<noteq> None"
  obtains root fil fkey content where
    "(root, fil) \<in> L" "get_file_extension fil \<notin> IGNORED_EXT" "\<not> known col fkey"
    "get_file_key sha256 (files w') (join root fil) HASH_LENGTH SIZE_LENGTH = Inr fkey"
    "p = staging_path col fkey fil"
    "files w' p = Some (File content)" "files w' (join root fil) = Some (File content)"
  using assms unfolding stages_only_def by blast

lemma stages_onlyI:
  assumes "\<And>p. files w p \<noteq> None \<Longrightarrow> files w' p = files w p"
    and "\<And>p. files w p = None \<Longrightarrow> files w' p \<noteq> None \<Longrightarrow>
           \<exists>root fil fkey content.
               (root, fil) \<in> L
               \<and> get_file_extension fil \<notin> IGNORED_EXT \<and> \<not> known col fkey
               \<and> get_file_key sha256 (files w') (join root fil) HASH_LENGTH SIZE_LENGTH = Inr fkey
               \<and> p = staging_path col fkey fil
               \<and> files w' p = Some (File content)
               \<and> files w' (join root fil) = Some (File content)"
  shows "stages_only sha256 col L w w'"
  unfolding stages_only_def using assms by blast

lemma get_file_key_cong:
  "fs' p = fs p \<Longrightarrow> get_file_key sha256 fs' p hl sl = get_file_key sha256 fs p hl sl"
proof (cases "fs p")
  case None
  assume "fs' p = fs p"
  then show ?thesis using None
    by (simp add: get_file_key_def get_file_hash_def read_bytes_def)
next
  case (Some n)
  assume eq: "fs' p = fs p"
  show ?thesis
  proof (cases n)
    case (File content)
    then show ?thesis using Some eq by (simp add: get_file_key_File)
  next
    case Directory
    then show ?thesis using Some eq
      by (simp add: get_file_key_def get_file_hash_def read_bytes_def)
  qed
qed

lemma stages_only_trans:
  assumes a: "stages_only sha256 col L w w1" and b: "stages_only sha256 col M w1 w2"
  shows "stages_only sha256 col (L \<union> M) w w2"
proof (rule stages_onlyI)
  fix p assume "files w p \<noteq> None"
  then show "files w2 p = files w p"
    using stages_only_keeps [OF a, of p] stages_only_keeps [OF b, of p] by simp
next
  fix p assume p: "files w p = None" "files w2 p \<noteq> None"
  show "\<exists>root fil fkey content.
          (root, fil) \<in> L \<union> M
          \<and> get_file_extension fil \<notin> IGNORED_EXT \<and> \<not> known col fkey
          \<and> get_file_key sha256 (files w2) (join root fil) HASH_LENGTH SIZE_LENGTH = Inr fkey
          \<and> p = staging_path col fkey fil
          \<and> files w2 p = Some (File content) \<and> files w2 (join root fil) = Some (File content)"
  proof (cases "files w1 p")
    case None
    from b None p(2) obtain root fil fkey content where
      "(root, fil) \<in> M" "get_file_extension fil \<notin> IGNORED_EXT" "\<not> known col fkey"
      "get_file_key sha256 (files w2) (join root fil) HASH_LENGTH SIZE_LENGTH = Inr fkey"
      "p = staging_path col fkey fil"
      "files w2 p = Some (File content)" "files w2 (join root fil) = Some (File content)"
      by (rule stages_only_new)
    then show ?thesis by blast
  next
    case (Some n)
    then have "files w1 p \<noteq> None" by simp
    with a p(1) obtain root fil fkey content where x:
      "(root, fil) \<in> L" "get_file_extension fil \<notin> IGNORED_EXT" "\<not> known col fkey"
      "get_file_key sha256 (files w1) (join root fil) HASH_LENGTH SIZE_LENGTH = Inr fkey"
      "p = staging_path col fkey fil"
      "files w1 p = Some (File content)" "files w1 (join root fil) = Some (File content)"
      by (rule stages_only_new)
    have k1: "files w2 p = Some (File content)"
      using stages_only_keeps [OF b, of p] x(6) by simp
    have k2: "files w2 (join root fil) = files w1 (join root fil)"
      using stages_only_keeps [OF b, of "join root fil"] x(7) by simp
    have "get_file_key sha256 (files w2) (join root fil) HASH_LENGTH SIZE_LENGTH = Inr fkey"
      using x(4) k2
        get_file_key_cong [of "files w2" "join root fil" "files w1" sha256 HASH_LENGTH SIZE_LENGTH]
      by simp
    then show ?thesis using x(1,2,3,5,7) k1 k2 by auto
  qed
qed

lemma body_stages_only:
  assumes "import_files_body sha256 col w root fil = (r, w')"
  shows "stages_only sha256 col {(root, fil)} w w'"
  using assms
proof (cases rule: import_files_body_elim)
  case (unreadable e)
  then show ?thesis by (simp add: stages_only_refl)
next
  case (ignored fkey)
  then show ?thesis by (simp add: stages_only_print)
next
  case (staged fkey)
  then show ?thesis by (simp add: stages_only_refl)
next
  case (failed fkey e)
  then show ?thesis by (simp add: stages_only_refl)
next
  case (copied fkey content)
  let ?t = "staging_path col fkey fil"
  have ne: "join root fil \<noteq> ?t" using copied(4,5) by auto
  have f: "files w' = (files w)(?t \<mapsto> File content)" using copied(7) by (simp add: print_def)
  have src: "files w' (join root fil) = files w (join root fil)" using f ne by simp
  have key: "get_file_key sha256 (files w') (join root fil) HASH_LENGTH SIZE_LENGTH = Inr fkey"
    using copied(1) src
      get_file_key_cong [of "files w'" "join root fil" "files w" sha256 HASH_LENGTH SIZE_LENGTH]
    by simp
  show ?thesis
  proof (rule stages_onlyI)
    fix p assume "files w p \<noteq> None"
    then show "files w' p = files w p" using f copied(4) by auto
  next
    fix p assume "files w p = None" "files w' p \<noteq> None"
    then have "p = ?t" using f by (auto split: if_splits)
    then have "(root, fil) \<in> {(root, fil)}
        \<and> get_file_extension fil \<notin> IGNORED_EXT \<and> \<not> known col fkey
        \<and> get_file_key sha256 (files w') (join root fil) HASH_LENGTH SIZE_LENGTH = Inr fkey
        \<and> p = staging_path col fkey fil
        \<and> files w' p = Some (File content) \<and> files w' (join root fil) = Some (File content)"
      using f src key copied(2,3,5) by simp
    then show "\<exists>root' fil' fkey content.
          (root', fil') \<in> {(root, fil)}
          \<and> get_file_extension fil' \<notin> IGNORED_EXT \<and> \<not> known col fkey
          \<and> get_file_key sha256 (files w') (join root' fil') HASH_LENGTH SIZE_LENGTH = Inr fkey
          \<and> p = staging_path col fkey fil'
          \<and> files w' p = Some (File content) \<and> files w' (join root' fil') = Some (File content)"
      by blast
  qed
qed

lemma dir_stages_only:
  "import_files_dir sha256 col w root fils = (r, w') \<Longrightarrow>
   stages_only sha256 col {(root, fil) | fil. fil \<in> set fils} w w'"
proof (induction fils arbitrary: w)
  case Nil
  then show ?case by (simp add: stages_only_refl)
next
  case (Cons fil rest)
  obtain r1 w1 where b: "import_files_body sha256 col w root fil = (r1, w1)" by fastforce
  have s1: "stages_only sha256 col {(root, fil)} w w1" using b by (rule body_stages_only)
  show ?case
  proof (cases r1)
    case None
    then have "import_files_dir sha256 col w1 root rest = (r, w')" using Cons.prems b by simp
    then have "stages_only sha256 col {(root, fil) | fil. fil \<in> set rest} w1 w'" by (rule Cons.IH)
    then have "stages_only sha256 col ({(root, fil)} \<union> {(root, fil) | fil. fil \<in> set rest}) w w'"
      using s1 by (rule stages_only_trans [rotated])
    then show ?thesis by (rule stages_only_mono) auto
  next
    case (Some e)
    then have "w' = w1" using Cons.prems b by simp
    then show ?thesis using s1 by (auto intro: stages_only_mono)
  qed
qed

lemma listed_Cons: "listed ((root, dirs, fils) # later) = {(root, fil) | fil. fil \<in> set fils} \<union> listed later"
  by (auto simp: listed_def)

lemma walk_stages_only:
  "import_files sha256 col w walk = (r, w') \<Longrightarrow> stages_only sha256 col (listed walk) w w'"
proof (induction walk arbitrary: w)
  case Nil
  then show ?case by (simp add: stages_only_refl)
next
  case (Cons entry later)
  obtain root dirs fils where e: "entry = (root, dirs, fils)" by (cases entry) auto
  obtain r1 w1 where d: "import_files_dir sha256 col w root (sort fils) = (r1, w1)" by fastforce
  have "stages_only sha256 col {(root, fil) | fil. fil \<in> set (sort fils)} w w1"
    using d by (rule dir_stages_only)
  then have s1: "stages_only sha256 col {(root, fil) | fil. fil \<in> set fils} w w1" by simp
  show ?case
  proof (cases r1)
    case None
    then have "import_files sha256 col w1 later = (r, w')" using Cons.prems d e by simp
    then have "stages_only sha256 col (listed later) w1 w'" by (rule Cons.IH)
    then show ?thesis
      using s1 unfolding e listed_Cons by (rule stages_only_trans [rotated])
  next
    case (Some x)
    then have "w' = w1" using Cons.prems d e by simp
    then show ?thesis using s1 unfolding e listed_Cons by (auto intro: stages_only_mono)
  qed
qed

subsection \<open>A second run\<close>

lemma settledI:
  "get_file_key sha256 fs (join root fil) HASH_LENGTH SIZE_LENGTH = Inr fkey \<Longrightarrow>
   get_file_extension fil \<in> IGNORED_EXT \<or> known col fkey
     \<or> exists_path fs (staging_path col fkey fil) \<Longrightarrow>
   settled sha256 col fs root fil"
  unfolding settled_def by simp

lemma settledE:
  assumes "settled sha256 col fs root fil"
  obtains fkey where
    "get_file_key sha256 fs (join root fil) HASH_LENGTH SIZE_LENGTH = Inr fkey"
    "get_file_extension fil \<in> IGNORED_EXT \<or> known col fkey
       \<or> exists_path fs (staging_path col fkey fil)"
proof (cases "get_file_key sha256 fs (join root fil) HASH_LENGTH SIZE_LENGTH")
  case (Inl e)
  then show ?thesis using assms unfolding settled_def by simp
next
  case (Inr fkey)
  then show ?thesis using assms that unfolding settled_def by simp
qed

lemma settled_mono:
  assumes "settled sha256 col fs root fil" and "\<And>p. fs p \<noteq> None \<Longrightarrow> fs' p = fs p"
  shows "settled sha256 col fs' root fil"
proof -
  obtain fkey where k: "get_file_key sha256 fs (join root fil) HASH_LENGTH SIZE_LENGTH = Inr fkey"
    and c: "get_file_extension fil \<in> IGNORED_EXT \<or> known col fkey
              \<or> exists_path fs (staging_path col fkey fil)"
    using assms(1) by (rule settledE)
  have "\<exists>content. fs (join root fil) = Some (File content)"
    using k get_file_key_Inr_iff [of sha256 fs "join root fil" HASH_LENGTH SIZE_LENGTH] by blast
  then have "fs (join root fil) \<noteq> None" by auto
  then have "fs' (join root fil) = fs (join root fil)" by (rule assms(2))
  then have k': "get_file_key sha256 fs' (join root fil) HASH_LENGTH SIZE_LENGTH = Inr fkey"
    using k get_file_key_cong [of fs' "join root fil" fs sha256 HASH_LENGTH SIZE_LENGTH] by simp
  have "exists_path fs (staging_path col fkey fil) \<Longrightarrow> exists_path fs' (staging_path col fkey fil)"
    using assms(2) [of "staging_path col fkey fil"] unfolding exists_path_def by simp
  then have "get_file_extension fil \<in> IGNORED_EXT \<or> known col fkey
              \<or> exists_path fs' (staging_path col fkey fil)"
    using c by blast
  then show ?thesis using k' by (rule settledI [rotated])
qed

lemma settled_known_mono:
  assumes "settled sha256 col fs root fil" and "directory col2 = directory col"
    and "\<And>k. known col k \<Longrightarrow> known col2 k"
  shows "settled sha256 col2 fs root fil"
proof -
  obtain fkey where k: "get_file_key sha256 fs (join root fil) HASH_LENGTH SIZE_LENGTH = Inr fkey"
    and c: "get_file_extension fil \<in> IGNORED_EXT \<or> known col fkey
              \<or> exists_path fs (staging_path col fkey fil)"
    using assms(1) by (rule settledE)
  have "staging_path col2 fkey fil = staging_path col fkey fil"
    using assms(2) by (simp add: staging_path_def get_airlock_def)
  then have "get_file_extension fil \<in> IGNORED_EXT \<or> known col2 fkey
              \<or> exists_path fs (staging_path col2 fkey fil)"
    using c assms(3) by auto
  then show ?thesis using k by (rule settledI [rotated])
qed

lemma body_settles:
  assumes "import_files_body sha256 col w root fil = (None, w')"
  shows "settled sha256 col (files w') root fil"
  using assms
proof (cases rule: import_files_body_elim)
  case (unreadable e)
  then show ?thesis by simp
next
  case (ignored fkey)
  have "files w' = files w" using ignored(4) by (simp add: print_def)
  then show ?thesis using ignored(1,2) by (intro settledI [of _ _ _ _ fkey]) auto
next
  case (staged fkey)
  then show ?thesis by (intro settledI [of _ _ _ _ fkey]) auto
next
  case (failed fkey e)
  then show ?thesis by simp
next
  case (copied fkey content)
  let ?t = "staging_path col fkey fil"
  have ne: "join root fil \<noteq> ?t" using copied(4,5) by auto
  have f: "files w' = (files w)(?t \<mapsto> File content)" using copied(7) by (simp add: print_def)
  have "files w' (join root fil) = files w (join root fil)" using f ne by simp
  then have "get_file_key sha256 (files w') (join root fil) HASH_LENGTH SIZE_LENGTH = Inr fkey"
    using copied(1)
      get_file_key_cong [of "files w'" "join root fil" "files w" sha256 HASH_LENGTH SIZE_LENGTH]
    by simp
  moreover have "exists_path (files w') ?t" using f by (simp add: exists_path_def)
  ultimately show ?thesis by (intro settledI [of _ _ _ _ fkey]) auto
qed

lemma dir_settles:
  "import_files_dir sha256 col w root fils = (None, w') \<Longrightarrow>
   fil \<in> set fils \<Longrightarrow> settled sha256 col (files w') root fil"
proof (induction fils arbitrary: w)
  case Nil
  then show ?case by simp
next
  case (Cons f rest)
  obtain r1 w1 where b: "import_files_body sha256 col w root f = (r1, w1)" by fastforce
  have r1: "r1 = None" using Cons.prems(1) b by (cases r1) auto
  then have rest: "import_files_dir sha256 col w1 root rest = (None, w')"
    using Cons.prems(1) b by simp
  show ?case
  proof (cases "fil \<in> set rest")
    case True
    then show ?thesis using Cons.IH [OF rest] by simp
  next
    case False
    then have "fil = f" using Cons.prems(2) by simp
    then have "settled sha256 col (files w1) root fil" using b r1 body_settles by blast
    then show ?thesis
      using stages_only_keeps [OF dir_stages_only [OF rest]] by (rule settled_mono)
  qed
qed

lemma walk_settles:
  "import_files sha256 col w walk = (None, w') \<Longrightarrow>
   (root, fil) \<in> listed walk \<Longrightarrow> settled sha256 col (files w') root fil"
proof (induction walk arbitrary: w)
  case Nil
  then show ?case by (simp add: listed_def)
next
  case (Cons entry later)
  obtain root' dirs fils where e: "entry = (root', dirs, fils)" by (cases entry) auto
  obtain r1 w1 where d: "import_files_dir sha256 col w root' (sort fils) = (r1, w1)" by fastforce
  have r1: "r1 = None" using Cons.prems(1) d e by (cases r1) auto
  then have rest: "import_files sha256 col w1 later = (None, w')"
    using Cons.prems(1) d e by simp
  show ?case
  proof (cases "(root, fil) \<in> listed later")
    case True
    then show ?thesis using Cons.IH [OF rest] by simp
  next
    case False
    then have "root = root'" "fil \<in> set (sort fils)"
      using Cons.prems(2) unfolding e listed_Cons by auto
    then have "settled sha256 col (files w1) root fil"
      using dir_settles d r1 by blast
    then show ?thesis
      using stages_only_keeps [OF walk_stages_only [OF rest]] by (rule settled_mono)
  qed
qed

lemma body_rerun:
  assumes "settled sha256 col (files w) root fil"
  shows "import_files_body sha256 col w root fil
           = (None, w\<lparr>stdout := stdout w @ ignored_report sha256 col (files w) root fil\<rparr>)"
proof -
  obtain fkey where k: "get_file_key sha256 (files w) (join root fil) HASH_LENGTH SIZE_LENGTH = Inr fkey"
    and c: "get_file_extension fil \<in> IGNORED_EXT \<or> known col fkey
              \<or> exists_path (files w) (staging_path col fkey fil)"
    using assms by (rule settledE)
  show ?thesis
  proof (cases "get_file_extension fil \<in> IGNORED_EXT \<or> known col fkey")
    case True
    have "ignored_report sha256 col (files w) root fil = [''- Ignored: '' @ join root fil]"
      unfolding ignored_report_def using k True by simp
    then show ?thesis
      using body_ignored [OF k True] by (simp add: print_def)
  next
    case False
    then have ex: "exists_path (files w) (staging_path col fkey fil)" using c by blast
    have f: "get_file_extension fil \<notin> IGNORED_EXT" "\<not> known col fkey" using False by simp_all
    have "ignored_report sha256 col (files w) root fil = []"
      unfolding ignored_report_def using k False by simp
    then show ?thesis
      using body_staged [OF k f ex] by simp
  qed
qed

lemma ignored_report_files:
  "ignored_report sha256 col (files (w\<lparr>stdout := out\<rparr>)) root fil = ignored_report sha256 col (files w) root fil"
  by simp

lemma dir_rerun:
  "(\<And>fil. fil \<in> set fils \<Longrightarrow> settled sha256 col (files w) root fil) \<Longrightarrow>
   import_files_dir sha256 col w root fils
     = (None, w\<lparr>stdout := stdout w @ concat (map (ignored_report sha256 col (files w) root) fils)\<rparr>)"
proof (induction fils arbitrary: w)
  case Nil
  then show ?case by simp
next
  case (Cons f rest)
  let ?w1 = "w\<lparr>stdout := stdout w @ ignored_report sha256 col (files w) root f\<rparr>"
  have b: "import_files_body sha256 col w root f = (None, ?w1)"
    using Cons.prems by (intro body_rerun) simp
  have "import_files_dir sha256 col ?w1 root rest
          = (None, ?w1\<lparr>stdout := stdout ?w1 @ concat (map (ignored_report sha256 col (files ?w1) root) rest)\<rparr>)"
    using Cons.prems by (intro Cons.IH) simp
  then show ?case using b by simp
qed

lemma walk_rerun:
  "(\<And>root fil. (root, fil) \<in> listed walk \<Longrightarrow> settled sha256 col (files w) root fil) \<Longrightarrow>
   import_files sha256 col w walk
     = (None, w\<lparr>stdout := stdout w @ ignored_reports sha256 col (files w) walk\<rparr>)"
proof (induction walk arbitrary: w)
  case Nil
  then show ?case by (simp add: ignored_reports_def)
next
  case (Cons entry later)
  obtain root dirs fils where e: "entry = (root, dirs, fils)" by (cases entry) auto
  let ?out = "concat (map (ignored_report sha256 col (files w) root) (sort fils))"
  let ?w1 = "w\<lparr>stdout := stdout w @ ?out\<rparr>"
  have d: "import_files_dir sha256 col w root (sort fils) = (None, ?w1)"
    using Cons.prems unfolding e listed_Cons by (intro dir_rerun) simp
  have "import_files sha256 col ?w1 later
          = (None, ?w1\<lparr>stdout := stdout ?w1 @ ignored_reports sha256 col (files ?w1) later\<rparr>)"
    using Cons.prems unfolding e listed_Cons by (intro Cons.IH) simp
  then show ?case using d unfolding e by (simp add: ignored_reports_def)
qed

lemma demo_hash_field: "hex_encode 88 32 = ''00000000000000000000000000000058''"
proof -
  have "hex_digits 88 = ''58''" by (simp add: hex_digits.simps hex_char_def)
  moreover have "replicate 30 (CHR ''0'') = ''000000000000000000000000000000''"
    by (simp add: numeral_eq_Suc)
  ultimately show ?thesis by (simp add: hex_encode_def)
qed

lemma demo_size_field: "hex_encode (Suc 0) 8 = ''00000001''"
proof -
  have "hex_digits (Suc 0) = ''1''" by (simp add: hex_digits.simps hex_char_def)
  moreover have "replicate 7 (CHR ''0'') = ''0000000''" by (simp add: numeral_eq_Suc)
  ultimately show ?thesis by (simp add: hex_encode_def)
qed

lemma demo_get_file_key:
  assumes "fs p = Some (File ''X'')"
  shows "get_file_key byte_sum fs p HASH_LENGTH SIZE_LENGTH = Inr demo_key"
proof -
  have "byte_sum ''X'' mod 2 ^ (4 * HASH_LENGTH) = 88"
    by (simp add: byte_sum_def HASH_LENGTH_def)
  then show ?thesis
    using assms demo_hash_field demo_size_field
    by (simp add: get_file_key_File HASH_LENGTH_def SIZE_LENGTH_def demo_key_def)
qed

lemma demo_extension: "get_file_extension ''cat.png'' = ''.png''"
  by (simp add: get_file_extension_def splitext_ext_def basename_def slash_def dot_def Let_def)


lemma demo_staging_path:
  "staging_path demo_collection demo_key ''cat.png''
     = ''col/.airlock/0000000000000000000000000000005800000001.png''"
  by (simp add: staging_path_def get_airlock_def demo_collection_def demo_extension join_def
        AIRLOCK_DIR_def slash_def demo_key_def)

lemma demo_first_run:
  "import_files byte_sum demo_collection demo_world demo_walk =
     (None, \<lparr>files = demo_files(''col/.airlock/0000000000000000000000000000005800000001.png'' \<mapsto> File ''X''),
             stdout = [''+ Copied:  src/cat.png -> col/.airlock/0000000000000000000000000000005800000001.png'']\<rparr>)"
proof -
  have j: "join ''src'' ''cat.png'' = ''src/cat.png''" by (simp add: join_def slash_def)
  have k: "get_file_key byte_sum (files demo_world) (join ''src'' ''cat.png'') HASH_LENGTH SIZE_LENGTH
             = Inr demo_key"
    unfolding j by (rule demo_get_file_key) (simp add: demo_world_def demo_files_def)
  have e: "get_file_extension ''cat.png'' \<notin> IGNORED_EXT"
    by (simp add: demo_extension IGNORED_EXT_def)
  have n: "\<not> known demo_collection demo_key"
    by (simp add: known_def is_blacklisted_def is_whitelisted_def demo_collection_def demo_key_def)
  have t: "files demo_world (staging_path demo_collection demo_key ''cat.png'') = None"
    by (simp add: demo_staging_path demo_world_def demo_files_def)
  have c: "files demo_world (join ''src'' ''cat.png'') = Some (File ''X'')"
    unfolding j by (simp add: demo_world_def demo_files_def)
  have p: "parent_exists (files demo_world) (staging_path demo_collection demo_key ''cat.png'')"
    by (simp add: demo_staging_path parent_exists_def dirname_def isdir_def slash_def Let_def
          demo_world_def demo_files_def)
  have "import_files_body byte_sum demo_collection demo_world ''src'' ''cat.png'' =
     (None, \<lparr>files = demo_files(''col/.airlock/0000000000000000000000000000005800000001.png'' \<mapsto> File ''X''),
             stdout = [''+ Copied:  src/cat.png -> col/.airlock/0000000000000000000000000000005800000001.png'']\<rparr>)"
    using body_copy [OF k e n t c] p
    by (simp add: demo_staging_path j print_def demo_world_def)
  then show ?thesis by (simp add: demo_walk_def)
qed

text \<open>
  C2, as the code has it. After a run of \<open>import_files\<close> that has ended without an
  exception, every listed file can be read and has an ignored extension, a known key, or its
  target in the airlock; the paths the run has added are such targets, one for a key and
  an extension. A second run over the same listing, with a collection that knows at least
  the same keys, ends without an exception, changes no file and prints one line
  \<^verbatim>\<open>- Ignored:\<close> for each file with an ignored extension or a known key, and nothing for
  a file whose target is there.
\<close>

theorem second_import_copies_nothing:
  assumes "import_files sha256 col w walk = (None, w1)"
    and "directory col2 = directory col"
    and "\<forall>k. known col k \<longrightarrow> known col2 k"
  shows "(\<forall>root fil. (root, fil) \<in> listed walk \<longrightarrow>
            (\<exists>fkey. get_file_key sha256 (files w1) (join root fil) HASH_LENGTH SIZE_LENGTH = Inr fkey
               \<and> (get_file_extension fil \<in> IGNORED_EXT \<or> known col fkey
                    \<or> files w1 (staging_path col fkey fil) \<noteq> None)))
       \<and> (\<forall>p. files w p = None \<and> files w1 p \<noteq> None \<longrightarrow>
            (\<exists>root fil fkey. (root, fil) \<in> listed walk
               \<and> get_file_extension fil \<notin> IGNORED_EXT \<and> \<not> known col fkey
               \<and> get_file_key sha256 (files w1) (join root fil) HASH_LENGTH SIZE_LENGTH = Inr fkey
               \<and> p = staging_path col fkey fil))
       \<and> import_files sha256 col2 w1 walk
           = (None, w1\<lparr>stdout := stdout w1 @ ignored_reports sha256 col2 (files w1) walk\<rparr>)"
proof (intro conjI allI impI)
  fix root fil assume l: "(root, fil) \<in> listed walk"
  have "settled sha256 col (files w1) root fil" using assms(1) l by (rule walk_settles)
  then obtain fkey where
    "get_file_key sha256 (files w1) (join root fil) HASH_LENGTH SIZE_LENGTH = Inr fkey"
    "get_file_extension fil \<in> IGNORED_EXT \<or> known col fkey
       \<or> exists_path (files w1) (staging_path col fkey fil)"
    by (rule settledE)
  then show "\<exists>fkey. get_file_key sha256 (files w1) (join root fil) HASH_LENGTH SIZE_LENGTH = Inr fkey
               \<and> (get_file_extension fil \<in> IGNORED_EXT \<or> known col fkey
                    \<or> files w1 (staging_path col fkey fil) \<noteq> None)"
    unfolding exists_path_def by blast
next
  fix p assume p: "files w p = None \<and> files w1 p \<noteq> None"
  have "stages_only sha256 col (listed walk) w w1" using assms(1) by (rule walk_stages_only)
  moreover have "files w p = None" "files w1 p \<noteq> None" using p by simp_all
  ultimately obtain root fil fkey content where
    "(root, fil) \<in> listed walk" "get_file_extension fil \<notin> IGNORED_EXT" "\<not> known col fkey"
    "get_file_key sha256 (files w1) (join root fil) HASH_LENGTH SIZE_LENGTH = Inr fkey"
    "p = staging_path col fkey fil"
    "files w1 p = Some (File content)" "files w1 (join root fil) = Some (File content)"
    by (rule stages_only_new)
  then show "\<exists>root fil fkey. (root, fil) \<in> listed walk
               \<and> get_file_extension fil \<notin> IGNORED_EXT \<and> \<not> known col fkey
               \<and> get_file_key sha256 (files w1) (join root fil) HASH_LENGTH SIZE_LENGTH = Inr fkey
               \<and> p = staging_path col fkey fil"
    by blast
next
  have kn: "\<And>k. known col k \<Longrightarrow> known col2 k" using assms(3) by blast
  have "settled sha256 col2 (files w1) root fil" if "(root, fil) \<in> listed walk" for root fil
  proof -
    have "settled sha256 col (files w1) root fil" using assms(1) that by (rule walk_settles)
    then show ?thesis using assms(2) kn by (rule settled_known_mono)
  qed
  then show "import_files sha256 col2 w1 walk
           = (None, w1\<lparr>stdout := stdout w1 @ ignored_reports sha256 col2 (files w1) walk\<rparr>)"
    by (rule walk_rerun)
qed


text \<open>
  C9. However a run of \<open>import_files\<close> ends, every path that held a node holds the same
  node afterwards, so no file of the source is changed, moved or removed; and a path that
  holds a node only afterwards is an entry of the airlock directory itself and holds the
  bytes of a listed file, which is still at its place.
\<close>

theorem import_writes_only_new_inbox_files:
  assumes "import_files sha256 col w walk = (raised, w')"
  shows "(\<forall>p. files w p \<noteq> None \<longrightarrow> files w' p = files w p)
       \<and> (\<forall>p. files w p = None \<and> files w' p \<noteq> None \<longrightarrow>
            (\<exists>root fil name content.
               (root, fil) \<in> listed walk
               \<and> slash \<notin> set name
               \<and> p = get_airlock col @ slash # name
               \<and> dirname p = get_airlock col
               \<and> files w' p = Some (File content)
               \<and> files w' (join root fil) = Some (File content)))"
proof (intro conjI allI impI)
  have s: "stages_only sha256 col (listed walk) w w'" using assms by (rule walk_stages_only)
  fix p
  show "files w' p = files w p" if "files w p \<noteq> None"
    using s that by (rule stages_only_keeps)
  assume p: "files w p = None \<and> files w' p \<noteq> None"
  then have n: "files w p = None" "files w' p \<noteq> None" by simp_all
  from s n obtain root fil fkey content where x:
    "(root, fil) \<in> listed walk" "get_file_extension fil \<notin> IGNORED_EXT" "\<not> known col fkey"
    "get_file_key sha256 (files w') (join root fil) HASH_LENGTH SIZE_LENGTH = Inr fkey"
    "p = staging_path col fkey fil"
    "files w' p = Some (File content)" "files w' (join root fil) = Some (File content)"
    by (rule stages_only_new)
  let ?name = "fkey @ get_file_extension fil"
  have sh: "slash \<notin> set ?name" "p = get_airlock col @ slash # ?name"
    using staging_path_shape [OF x(4)] x(5) by simp_all
  have "dirname p = get_airlock col"
    unfolding sh(2) using airlock_shape [of col] sh(1) by (intro dirname_entry) simp_all
  then show "\<exists>root fil name content.
               (root, fil) \<in> listed walk
               \<and> slash \<notin> set name
               \<and> p = get_airlock col @ slash # name
               \<and> dirname p = get_airlock col
               \<and> files w' p = Some (File content)
               \<and> files w' (join root fil) = Some (File content)"
    using x(1,6,7) sh by blast
qed

lemma demo_first_run_staged:
  "import_files byte_sum demo_collection demo_world demo_walk = (None, demo_staged_world)"
  using demo_first_run by (simp add: demo_staged_world_def demo_staged_def)

lemma demo_join_staged: "join (get_airlock demo_collection) demo_name = demo_staged"
  by (simp add: get_airlock_def demo_collection_def demo_name_def demo_staged_def join_def
        AIRLOCK_DIR_def slash_def)

lemma demo_join_gallery:
  "join (get_gallery demo_collection) demo_name
     = ''col/Gallery/0000000000000000000000000000005800000001.png''"
  by (simp add: get_gallery_def demo_collection_def demo_name_def join_def GALLERY_DIR_def slash_def)

lemma demo_name_no_slash: "slash \<notin> set demo_name"
  by (simp add: demo_name_def slash_def)

lemma demo_opened: "opened demo_collection demo_staged_world"
  by (simp add: opened_def demo_collection_def demo_staged_world_def demo_files_def
        demo_staged_def isdir_def isfile_def get_airlock_def get_gallery_def join_def slash_def
        BLACKLIST_FILE_def WHITELIST_FILE_def AIRLOCK_DIR_def GALLERY_DIR_def)

lemma demo_current: "py_index (playlist demo_player) (playlist_pos demo_player) = Inr demo_staged"
  by (simp add: py_index_def demo_player_def)

lemma demo_staged_file: "files demo_staged_world demo_staged = Some (File ''X'')"
  by (simp add: demo_staged_world_def)

lemma demo_source_file: "files demo_staged_world ''src/cat.png'' = Some (File ''X'')"
  by (simp add: demo_staged_world_def demo_files_def demo_staged_def)

lemma demo_second_run:
  "import_files byte_sum demo_collection demo_staged_world demo_walk = (None, demo_staged_world)"
proof -
  have j: "join ''src'' ''cat.png'' = ''src/cat.png''" by (simp add: join_def slash_def)
  have k: "get_file_key byte_sum (files demo_staged_world) (join ''src'' ''cat.png'')
             HASH_LENGTH SIZE_LENGTH = Inr demo_key"
    unfolding j using demo_source_file by (rule demo_get_file_key)
  have e: "get_file_extension ''cat.png'' \<notin> IGNORED_EXT"
    by (simp add: demo_extension IGNORED_EXT_def)
  have n: "\<not> known demo_collection demo_key"
    by (simp add: known_def is_blacklisted_def is_whitelisted_def demo_collection_def demo_key_def)
  have t: "exists_path (files demo_staged_world) (staging_path demo_collection demo_key ''cat.png'')"
    by (simp add: demo_staging_path exists_path_def demo_staged_world_def demo_staged_def)
  have "import_files_body byte_sum demo_collection demo_staged_world ''src'' ''cat.png''
          = (None, demo_staged_world)"
    using k e n t by (rule body_staged)
  then show ?thesis by (simp add: demo_walk_def)
qed

text \<open>
  The second run does not report a file whose target is in the airlock: for the picture
  that the first run has copied, it prints nothing.
\<close>

theorem second_import_is_silent_about_staged_file:
  "\<exists>w1 w2. import_files byte_sum demo_collection demo_world demo_walk = (None, w1)
      \<and> import_files byte_sum demo_collection w1 demo_walk = (None, w2)
      \<and> files w1 (staging_path demo_collection demo_key ''cat.png'') = Some (File ''X'')
      \<and> stdout w2 = stdout w1
      \<and> ''- Ignored: src/cat.png'' \<notin> set (stdout w2)"
proof -
  have "files demo_staged_world (staging_path demo_collection demo_key ''cat.png'') = Some (File ''X'')"
    by (simp add: demo_staging_path demo_staged_world_def demo_staged_def)
  moreover have "''- Ignored: src/cat.png'' \<notin> set (stdout demo_staged_world)"
    by (simp add: demo_staged_world_def)
  ultimately show ?thesis using demo_first_run_staged demo_second_run by blast
qed

theorem second_import_copies_nothing_witness:
  "\<exists>w1. import_files byte_sum demo_collection demo_world demo_walk = (None, w1)
      \<and> import_files byte_sum demo_collection w1 demo_walk
          = (None, w1\<lparr>stdout := stdout w1
                         @ ignored_reports byte_sum demo_collection (files w1) demo_walk\<rparr>)"
proof -
  have "import_files byte_sum demo_collection demo_staged_world demo_walk
          = (None, demo_staged_world\<lparr>stdout := stdout demo_staged_world
               @ ignored_reports byte_sum demo_collection (files demo_staged_world) demo_walk\<rparr>)"
    using second_import_copies_nothing [OF demo_first_run_staged, of demo_collection] by simp
  then show ?thesis using demo_first_run_staged by blast
qed



theorem import_writes_only_new_inbox_files_witness:
  "\<exists>w'. import_files byte_sum demo_collection demo_world demo_walk = (None, w')
      \<and> files w' ''src/cat.png'' = Some (File ''X'')
      \<and> files w' ''col/.blacklist'' = Some (File [])"
proof -
  note t = import_writes_only_new_inbox_files [OF demo_first_run_staged, THEN conjunct1, rule_format]
  have "files demo_staged_world ''src/cat.png'' = files demo_world ''src/cat.png''"
    by (rule t) (simp add: demo_world_def demo_files_def)
  moreover have "files demo_staged_world ''col/.blacklist'' = files demo_world ''col/.blacklist''"
    by (rule t) (simp add: demo_world_def demo_files_def)
  ultimately show ?thesis
    using demo_first_run_staged by (simp add: demo_world_def demo_files_def)
qed

theorem rejected_key_known_after_reopen_witness:
  "\<exists>k col1 pl1 w1 w2 col2.
       get_file_key byte_sum (files demo_staged_world) (join (get_airlock demo_collection) demo_name)
         HASH_LENGTH SIZE_LENGTH = Inr k
     \<and> blacklist_handler byte_sum demo_collection demo_player demo_staged_world ''u-''
         = (None, col1, pl1, w1)
     \<and> Collection_exit col1 w1 = (None, w2)
     \<and> Collection_init w2 (directory col1) = (Inr col2, w2)
     \<and> is_blacklisted col2 k
     \<and> files w2 (join (get_airlock demo_collection) demo_name) = None"
proof -
  have c: "py_index (playlist demo_player) (playlist_pos demo_player)
             = Inr (join (get_airlock demo_collection) demo_name)"
    using demo_current by (simp add: demo_join_staged)
  have f: "files demo_staged_world (join (get_airlock demo_collection) demo_name) = Some (File ''X'')"
    using demo_staged_file by (simp add: demo_join_staged)
  have s: "''u-'' = CHR ''u'' # ''-''" by simp
  show ?thesis
    using demo_opened c demo_name_no_slash f s by (rule rejected_key_known_after_reopen)
qed

theorem accepted_file_keeps_staged_name_witness:
  "\<exists>k col1 pl1 w1.
       get_file_key byte_sum (files demo_staged_world) (join (get_airlock demo_collection) demo_name)
         HASH_LENGTH SIZE_LENGTH = Inr k
     \<and> whitelist_handler byte_sum demo_collection demo_player demo_staged_world ''u-''
         = (None, col1, pl1, w1)
     \<and> basename (join (get_airlock demo_collection) demo_name) = demo_name
     \<and> files w1 (join (get_airlock demo_collection) demo_name) = None
     \<and> files w1 (join (get_gallery demo_collection) demo_name) = Some (File ''X'')
     \<and> is_whitelisted col1 k"
proof -
  have c: "py_index (playlist demo_player) (playlist_pos demo_player)
             = Inr (join (get_airlock demo_collection) demo_name)"
    using demo_current by (simp add: demo_join_staged)
  have f: "files demo_staged_world (join (get_airlock demo_collection) demo_name) = Some (File ''X'')"
    using demo_staged_file by (simp add: demo_join_staged)
  have g: "files demo_staged_world (join (get_gallery demo_collection) demo_name) \<noteq> Some Directory"
    by (simp add: demo_join_gallery demo_staged_world_def demo_files_def demo_staged_def)
  have s: "''u-'' = CHR ''u'' # ''-''" by simp
  show ?thesis
    using demo_opened c demo_name_no_slash f g s by (rule accepted_file_keeps_staged_name)
qed

text \<open>
  The name a file has in the airlock is the one \<open>import_files\<close> gave it: its key followed
  by its extension. The picture \<^verbatim>\<open>src/cat.png\<close>, imported and then accepted, is in the
  gallery under its key and not as \<^verbatim>\<open>cat.png\<close>.
\<close>

theorem accepted_file_is_named_by_its_key:
  "\<exists>w1 col1 pl1 w2.
       import_files byte_sum demo_collection demo_world demo_walk = (None, w1)
     \<and> get_file_key byte_sum (files w1) demo_staged HASH_LENGTH SIZE_LENGTH = Inr demo_key
     \<and> whitelist_handler byte_sum demo_collection demo_player w1 ''u-'' = (None, col1, pl1, w2)
     \<and> files w2 ''col/Gallery/cat.png'' = None
     \<and> files w2 (''col/Gallery/'' @ demo_key @ ''.png'') = Some (File ''X'')"
proof -
  have c: "py_index (playlist demo_player) (playlist_pos demo_player)
             = Inr (join (get_airlock demo_collection) demo_name)"
    using demo_current by (simp add: demo_join_staged)
  have f: "files demo_staged_world (join (get_airlock demo_collection) demo_name) = Some (File ''X'')"
    using demo_staged_file by (simp add: demo_join_staged)
  have g: "files demo_staged_world (join (get_gallery demo_collection) demo_name) \<noteq> Some Directory"
    by (simp add: demo_join_gallery demo_staged_world_def demo_files_def demo_staged_def)
  have s: "''u-'' = CHR ''u'' # ''-''" by simp
  have k: "get_file_key byte_sum (files demo_staged_world) (join (get_airlock demo_collection) demo_name)
             HASH_LENGTH SIZE_LENGTH = Inr demo_key"
    using f by (rule demo_get_file_key)
  note r = whitelist_handler_staged(1) [OF demo_opened c demo_name_no_slash f g s k]
  let ?w2 = "print (demo_staged_world\<lparr>files :=
                 ((files demo_staged_world)(join (get_airlock demo_collection) demo_name := None))
                   (join (get_gallery demo_collection) demo_name \<mapsto> File ''X'')\<rparr>)
               (''Whitelisted: '' @ join (get_airlock demo_collection) demo_name)"
  have "files ?w2 ''col/Gallery/cat.png'' = None"
    by (simp add: print_def demo_join_staged demo_join_gallery demo_staged_world_def
          demo_files_def demo_staged_def)
  moreover have "files ?w2 (''col/Gallery/'' @ demo_key @ ''.png'') = Some (File ''X'')"
    by (simp add: print_def demo_join_gallery demo_key_def)
  moreover have "get_file_key byte_sum (files demo_staged_world) demo_staged
                   HASH_LENGTH SIZE_LENGTH = Inr demo_key"
    using k by (simp add: demo_join_staged)
  ultimately show ?thesis using demo_first_run_staged r by blast
qed



lemma import_keeps_opened:
  assumes "import_files sha256 col w walk = (raised, w')" and "opened col w"
  shows "opened col w'"
proof -
  have s: "stages_only sha256 col (listed walk) w w'" using assms(1) by (rule walk_stages_only)
  have keep: "files w' p = files w p" if "files w p \<noteq> None" for p
    using s that by (rule stages_only_keeps)
  have "files w' (directory col) = files w (directory col)"
    using assms(2) by (intro keep) (simp add: opened_def isdir_def)
  moreover have "files w' (join (directory col) BLACKLIST_FILE) = files w (join (directory col) BLACKLIST_FILE)"
    using assms(2) by (intro keep) (auto simp: opened_def isfile_iff)
  moreover have "files w' (join (directory col) WHITELIST_FILE) = files w (join (directory col) WHITELIST_FILE)"
    using assms(2) by (intro keep) (auto simp: opened_def isfile_iff)
  moreover have "files w' (get_airlock col) = files w (get_airlock col)"
    using assms(2) by (intro keep) (simp add: opened_def isdir_def)
  moreover have "files w' (get_gallery col) = files w (get_gallery col)"
    using assms(2) by (intro keep) (simp add: opened_def isdir_def)
  ultimately have "opened col w' = opened col w" by (intro opened_cong) simp_all
  then show ?thesis using assms(2) by simp
qed

lemma opened_writable:
  assumes "opened col w"
  shows "writable (files w) (join (directory col) BLACKLIST_FILE)"
    and "writable (files w) (join (directory col) WHITELIST_FILE)"
  using assms by (auto simp: opened_def writable_def isfile_iff isdir_def exists_path_def)

text \<open>
  The import mode of the main program: whether \<open>import_files\<close> returns or raises, the
  decision lists are written, and the program ends as \<open>import_files\<close> did.
\<close>

lemma main_import_flushes:
  assumes "given (arg_source ARGS)" and "isdir (files w) (the (arg_source ARGS))"
    and "Collection_init w (arg_collection ARGS) = (Inr col, w1)"
    and "import_files sha256 col w1 walk = (raised, w2)"
  shows "\<exists>w3. main sha256 walk sort_airlock view_collection to_int ARGS w = (raised, w3)
           \<and> files w3 (join (directory col) BLACKLIST_FILE) = Some (File (key_lines (blacklist col)))
           \<and> files w3 (join (directory col) WHITELIST_FILE) = Some (File (key_lines (whitelist col)))"
proof -
  let ?body = "\<lambda>COL w'. case import_files sha256 COL w' walk of (raised, w'') \<Rightarrow> (raised, COL, w'')"
  have op: "opened col w2"
    using assms(4) Collection_init_Inr(2) [OF assms(3)] by (rule import_keeps_opened)
  have b: "?body col w1 = (raised, col, w2)" using assms(4) by simp
  have "\<exists>w3. with_Collection (arg_collection ARGS) ?body w = (raised, w3)
           \<and> files w3 (join (directory col) BLACKLIST_FILE) = Some (File (key_lines (blacklist col)))
           \<and> files w3 (join (directory col) WHITELIST_FILE) = Some (File (key_lines (whitelist col)))"
  proof -
    let ?bl = "join (directory col) BLACKLIST_FILE" and ?wl = "join (directory col) WHITELIST_FILE"
    let ?w3 = "w2\<lparr>files := (files w2)(?bl \<mapsto> File (key_lines (blacklist col)),
                                      ?wl \<mapsto> File (key_lines (whitelist col)))\<rparr>"
    have "Collection_exit col w2 = (None, ?w3)" using op by (rule Collection_exit_opened)
    then have "with_Collection (arg_collection ARGS) ?body w = (raised, ?w3)"
      using assms(3) b by (simp add: with_Collection_def)
    moreover have "files ?w3 ?bl = Some (File (key_lines (blacklist col)))"
      using collection_paths_distinct(5) [of "directory col"] by simp
    moreover have "files ?w3 ?wl = Some (File (key_lines (whitelist col)))" by simp
    ultimately show ?thesis by blast
  qed
  then show ?thesis using main_modes(1) [OF assms(1,2)] by simp
qed

end
